theory Spec2Isabelle
  imports
    Main
    "HOL-Library.Char_ord"
    "HOL-Library.List_Lexorder"
    "HOL-Library.Product_Lexorder"
    "HOL-Library.Multiset"
begin

section \<open>Strings and numbers of the installer script\<close>

text \<open>
  A Python \<open>str\<close> is modelled as its UTF-8 byte sequence (\<^typ>\<open>string\<close>). The order of
  \<^typ>\<open>string\<close> is the lexicographic order of the bytes, which is the order Python uses
  for \<open>str\<close> (code point order and UTF-8 byte order agree). Console output of the
  script (\<open>print\<close>) is not part of the model; only the commands handed to
  \<open>subprocess.run\<close> are recorded.
\<close>

definition digit_char :: "nat \<Rightarrow> char" where
  "digit_char d = ''0123456789'' ! d"

text \<open>\<open>str(n)\<close> for a non-negative integer: its decimal digits.\<close>

function str_nat :: "nat \<Rightarrow> string" where
  "str_nat n = (if n < 10 then [digit_char n] else str_nat (n div 10) @ [digit_char (n mod 10)])"
  by pat_completeness auto
termination
  by (relation "measure (\<lambda>n. n)") auto

declare str_nat.simps [simp del]

text \<open>\<open>str(i)\<close> for a Python \<open>int\<close>.\<close>

definition str_int :: "int \<Rightarrow> string" where
  "str_int i = (if i < 0 then CHR ''-'' # str_nat (nat (- i)) else str_nat (nat i))"

text \<open>\<open>s.rstrip('/')\<close>: every trailing \<open>/\<close> is removed.\<close>

definition rstrip_slash :: "string \<Rightarrow> string" where
  "rstrip_slash s = rev (dropWhile (\<lambda>c. c = CHR ''/'') (rev s))"

text \<open>\<open>sep.join(xs)\<close>.\<close>

fun join :: "string \<Rightarrow> string list \<Rightarrow> string" where
  "join sep [] = []"
| "join sep [x] = x"
| "join sep (x # y # ys) = x @ sep @ join sep (y # ys)"

text \<open>
  \<open>shlex.quote\<close> of the standard library: the empty string becomes \<open>''\<close>, a string of
  safe characters (\<open>[A-Za-z0-9_@%+=:,./-]\<close>) is kept, any other string is put between
  single quotes with every single quote replaced by \<open>'"'"'\<close>.
\<close>

definition safe_char :: "char \<Rightarrow> bool" where
  "safe_char c \<longleftrightarrow>
     (CHR ''a'' \<le> c \<and> c \<le> CHR ''z'') \<or> (CHR ''A'' \<le> c \<and> c \<le> CHR ''Z'') \<or>
     (CHR ''0'' \<le> c \<and> c \<le> CHR ''9'') \<or> c \<in> set ''_@%+=:,./-''"

definition shlex_quote :: "string \<Rightarrow> string" where
  "shlex_quote s =
     (if s = [] then [CHR 0x27, CHR 0x27]
      else if list_all safe_char s then s
      else [CHR 0x27] @
           concat (map (\<lambda>c. if c = CHR 0x27
                              then [CHR 0x27, CHR 0x22, CHR 0x27, CHR 0x22, CHR 0x27]
                              else [c]) s) @
           [CHR 0x27])"

text \<open>\<open>os.path.join(a, b)\<close> of \<open>posixpath\<close>, for two components.\<close>

definition os_path_join :: "string \<Rightarrow> string \<Rightarrow> string" where
  "os_path_join a b =
     (if b \<noteq> [] \<and> hd b = CHR ''/'' then b
      else if a = [] \<or> last a = CHR ''/'' then a @ b
      else a @ ''/'' @ b)"

section \<open>Data model\<close>

datatype PartitionType = LINUX_HOME | LINUX_X86_64_ROOT | EFI_SYSTEM

fun type_id :: "PartitionType \<Rightarrow> string" where
  "type_id LINUX_HOME = ''8302''"
| "type_id LINUX_X86_64_ROOT = ''8304''"
| "type_id EFI_SYSTEM = ''ef00''"

datatype FileSystemType = BTRFS | EXT4 | FAT32

fun name :: "FileSystemType \<Rightarrow> string" where
  "name BTRFS = ''btrfs''"
| "name EXT4 = ''ext4''"
| "name FAT32 = ''vfat''"

fun formatter :: "FileSystemType \<Rightarrow> string list" where
  "formatter BTRFS = [''mkfs.btrfs'', ''-f'']"
| "formatter EXT4 = [''mkfs.ext4'']"
| "formatter FAT32 = [''mkfs.fat'', ''-F32'']"

text \<open>\<open>size\<close> is \<open>Optional[int]\<close>, in MiB.\<close>

record Partition =
  size :: "int option"
  partition_type :: PartitionType
  file_system :: FileSystemType
  mount_point :: string

record MountSpec =
  disk :: string
  partition_id :: nat
  file_system_name :: string

text \<open>The property \<open>MountSpec.partition\<close>: the physical partition identifier.\<close>

definition partition_of :: "MountSpec \<Rightarrow> string" where
  "partition_of m = disk m @ str_nat (partition_id m)"

record MountSpecs =
  root :: MountSpec
  boot :: "MountSpec option"
  home :: "MountSpec option"

text \<open>
  The partition table \<open>Mapping[str, Sequence[Partition]]\<close> is a Python \<open>dict\<close>, iterated
  with \<open>.items()\<close> in insertion order: an association list. (A \<open>dict\<close> has no two equal
  keys; nothing below depends on that.)
\<close>

type_synonym partition_table = "(string \<times> Partition list) list"

section \<open>Running commands\<close>

type_synonym command = "string list"

text \<open>
  What \<open>subprocess.run(args, check=True)\<close> can do: the process exits with a return code,
  the operator interrupts it, or the call raises some other error (the program is not
  found, say).
\<close>

datatype outcome = Exit int | Interrupt | Error string

datatype exn =
    CalledProcessError int command
  | KeyboardInterrupt
  | OSError string
  | ValueError string
  | KeyError string
  | Raised string

text \<open>
  The outside world decides the outcome of a command from the commands run so far. The
  state of a computation is the trace of the commands handed to \<open>subprocess.run\<close>, in
  order; a computation returns a value or raises.
\<close>

type_synonym trace = "command list"
type_synonym world = "trace \<Rightarrow> command \<Rightarrow> outcome"
type_synonym 'a prog = "trace \<Rightarrow> (exn + 'a) \<times> trace"

definition return :: "'a \<Rightarrow> 'a prog" where
  "return x tr = (Inr x, tr)"

text \<open>Sequencing of two statements: the second runs only if the first does not raise.\<close>

definition seq :: "unit prog \<Rightarrow> 'a prog \<Rightarrow> 'a prog" where
  "seq m k tr = (case m tr of (Inl e, tr') \<Rightarrow> (Inl e, tr') | (Inr _, tr') \<Rightarrow> k tr')"

text \<open>
  \<open>try: m finally: f\<close>: \<open>f\<close> runs however \<open>m\<close> ends; when \<open>f\<close> raises, its exception
  replaces the outcome of \<open>m\<close>, otherwise the outcome of \<open>m\<close> stands.
\<close>

definition try_finally :: "'a prog \<Rightarrow> unit prog \<Rightarrow> 'a prog" where
  "try_finally m f tr =
     (case m tr of (r, tr') \<Rightarrow>
        (case f tr' of (Inl e, tr'') \<Rightarrow> (Inl e, tr'') | (Inr _, tr'') \<Rightarrow> (r, tr'')))"

text \<open>\<open>_run(*args)\<close>: both handlers re-raise what they caught.\<close>

definition run :: "world \<Rightarrow> command \<Rightarrow> unit prog" where
  "run w args tr =
     (case w tr args of
        Exit rc \<Rightarrow> if rc = 0 then (Inr (), tr @ [args])
                   else (Inl (CalledProcessError rc args), tr @ [args])
      | Interrupt \<Rightarrow> (Inl KeyboardInterrupt, tr @ [args])
      | Error msg \<Rightarrow> (Inl (OSError msg), tr @ [args]))"

text \<open>
  The arguments \<open>_write_line_to_file\<close> and \<open>_append_line_to_file\<close> hand to \<open>_run\<close>: a
  shell that prints the content followed by a newline into the file. The format is the
  raw string \<open>%s\n\<close> (a backslash and the letter n).
\<close>

definition write_line_args :: "string \<Rightarrow> string \<Rightarrow> command" where
  "write_line_args content file =
     [''sh'', ''-c'',
      join '' '' (map shlex_quote [''printf'', ''%s'' @ [CHR 0x5C, CHR ''n''], content] @
                  [''>'', shlex_quote file])]"

definition append_line_args :: "string \<Rightarrow> string \<Rightarrow> command" where
  "append_line_args content file =
     [''sh'', ''-c'',
      join '' '' (map shlex_quote [''printf'', ''%s'' @ [CHR 0x5C, CHR ''n''], content] @
                  [''>>'', shlex_quote file])]"

definition write_line_to_file :: "world \<Rightarrow> string \<Rightarrow> string \<Rightarrow> unit prog" where
  "write_line_to_file w content file = run w (write_line_args content file)"

definition append_line_to_file :: "world \<Rightarrow> string \<Rightarrow> string \<Rightarrow> unit prog" where
  "append_line_to_file w content file = run w (append_line_args content file)"

section \<open>Partitioner\<close>

text \<open>
  The inner loop of \<open>_partition\<close> over \<open>enumerate(partition_items, 1)\<close>. The test
  \<open>if partition_item.size\<close> is truthiness: \<open>None\<close> and \<open>0\<close> are both false.
\<close>

fun partition_loop :: "world \<Rightarrow> string \<Rightarrow> (nat \<times> Partition) list \<Rightarrow> unit prog" where
  "partition_loop w d [] = return ()"
| "partition_loop w d ((i, partition_item) # rest) =
     seq (case size partition_item of
            None \<Rightarrow> run w [''sgdisk'', ''-n='' @ str_nat i @ '':0:0'', d]
          | Some n \<Rightarrow>
              if n \<noteq> 0 then run w [''sgdisk'', ''-n='' @ str_nat i @ '':0:+'' @ str_int n @ ''M'', d]
              else run w [''sgdisk'', ''-n='' @ str_nat i @ '':0:0'', d])
      (seq (run w [''sgdisk'', ''-t='' @ str_nat i @ '':'' @ type_id (partition_type partition_item), d])
      (seq (run w (formatter (file_system partition_item) @ [d @ str_nat i]))
           (partition_loop w d rest)))"

fun partition_py :: "world \<Rightarrow> partition_table \<Rightarrow> unit prog" where
  "partition_py w [] = return ()"
| "partition_py w ((d, partition_items) # rest) =
     seq (run w [''sgdisk'', ''-Z'', d])
      (seq (partition_loop w d (List.enumerate 1 partition_items))
           (partition_py w rest))"

section \<open>Mount orchestrator\<close>

text \<open>
  \<open>with _do_mount(mount_specs): body\<close>. The generator takes the next pair; with none
  left it yields to the body. Otherwise it runs \<open>mkdir\<close> and \<open>mount\<close> (a failure of
  either leaves the generator before the \<open>try\<close>), then enters the scope of the
  remaining pairs inside \<open>try ... finally\<close>, whose \<open>finally\<close> runs \<open>umount\<close>.
\<close>

fun do_mount :: "world \<Rightarrow> (string \<times> string) list \<Rightarrow> unit prog \<Rightarrow> unit prog" where
  "do_mount w [] body = body"
| "do_mount w ((target, source) # mount_specs) body =
     seq (run w [''mkdir'', ''-p'', target])
      (seq (run w [''mount'', source, target])
           (try_finally (do_mount w mount_specs body) (run w [''umount'', target])))"

text \<open>The generator expression of \<open>_mount_filesystems\<close>, before it is sorted.\<close>

definition mount_pairs :: "partition_table \<Rightarrow> string \<Rightarrow> (string \<times> string) list" where
  "mount_pairs partitions r =
     [(rstrip_slash r @ rstrip_slash (mount_point partition_item), d @ str_nat i).
        (d, partition_items) \<leftarrow> partitions,
        (i, partition_item) \<leftarrow> List.enumerate 1 partition_items]"

text \<open>The local variable \<open>mount_specs\<close>: the pairs, sorted as tuples of strings.\<close>

definition sorted_mount_specs :: "partition_table \<Rightarrow> string \<Rightarrow> (string \<times> string) list" where
  "sorted_mount_specs partitions r = sort (mount_pairs partitions r)"

definition mount_filesystems :: "world \<Rightarrow> partition_table \<Rightarrow> string \<Rightarrow> unit prog \<Rightarrow> unit prog" where
  "mount_filesystems w partitions r body = do_mount w (sorted_mount_specs partitions r) body"

section \<open>Mount spec resolver\<close>

text \<open>
  The message of the \<open>ValueError\<close>; the quotation marks around the mount point are
  U+201C and U+201D, three bytes each in UTF-8.
\<close>

definition already_exists :: "string \<Rightarrow> string" where
  "already_exists mp =
     ''Mount point '' @ [CHR 0xE2, CHR 0x80, CHR 0x9C] @ mp @ [CHR 0xE2, CHR 0x80, CHR 0x9D] @
     '' already exists.''"

text \<open>The inner loop of \<open>_get_mount_specs\<close>, over \<open>enumerate(partition_items, 1)\<close>.\<close>

fun resolve_loop ::
  "string \<Rightarrow> (nat \<times> Partition) list \<Rightarrow> (string \<rightharpoonup> MountSpec) \<Rightarrow> exn + (string \<rightharpoonup> MountSpec)" where
  "resolve_loop d [] mount_points = Inr mount_points"
| "resolve_loop d ((i, partition_item) # rest) mount_points =
     (let mp = rstrip_slash (mount_point partition_item) in
      if mount_points mp \<noteq> None then Inl (ValueError (already_exists mp))
      else resolve_loop d rest
             (mount_points(mp \<mapsto>
                \<lparr>disk = d, partition_id = i,
                 file_system_name = name (file_system partition_item)\<rparr>)))"

text \<open>The outer loop, over \<open>partitions.items()\<close>.\<close>

fun resolve_disks ::
  "partition_table \<Rightarrow> (string \<rightharpoonup> MountSpec) \<Rightarrow> exn + (string \<rightharpoonup> MountSpec)" where
  "resolve_disks [] mount_points = Inr mount_points"
| "resolve_disks ((d, partition_items) # rest) mount_points =
     (case resolve_loop d (List.enumerate 1 partition_items) mount_points of
        Inl e \<Rightarrow> Inl e
      | Inr mount_points' \<Rightarrow> resolve_disks rest mount_points')"

text \<open>\<open>mount_points['']\<close> raises \<open>KeyError\<close> when no partition is mounted at the root.\<close>

definition get_mount_specs :: "partition_table \<Rightarrow> exn + MountSpecs" where
  "get_mount_specs partitions =
     (case resolve_disks partitions Map.empty of
        Inl e \<Rightarrow> Inl e
      | Inr mount_points \<Rightarrow>
          (case mount_points [] of
             None \<Rightarrow> Inl (KeyError [])
           | Some r \<Rightarrow>
               Inr \<lparr>root = r, boot = mount_points ''/boot'', home = mount_points ''/home''\<rparr>))"

section \<open>Fstab emitter\<close>

text \<open>
  The first loop of \<open>_write_fstab\<close> collects the lines as tuples. A \<open>MountSpec\<close> is a
  named tuple of three fields, so \<open>if mount_spec\<close> is false for \<open>None\<close> only.
\<close>

type_synonym fstab_line = "string \<times> string \<times> string \<times> string \<times> int \<times> int"

fun fstab_lines_loop ::
  "MountSpecs \<Rightarrow> (string \<times> MountSpec option) list \<Rightarrow> fstab_line list \<Rightarrow> fstab_line list" where
  "fstab_lines_loop mount_specs [] lines = lines"
| "fstab_lines_loop mount_specs ((mount_target, None) # rest) lines =
     fstab_lines_loop mount_specs rest lines"
| "fstab_lines_loop mount_specs ((mount_target, Some mount_spec) # rest) lines =
     (if disk mount_spec \<noteq> disk (root mount_specs)
      then fstab_lines_loop mount_specs rest
             (lines @ [(partition_of mount_spec, mount_target, file_system_name mount_spec,
                        ''defaults'', 0, 0)])
      else fstab_lines_loop mount_specs rest lines)"

definition fstab_lines :: "MountSpecs \<Rightarrow> fstab_line list" where
  "fstab_lines mount_specs =
     fstab_lines_loop mount_specs
       [(''/boot'', boot mount_specs), (''/home'', home mount_specs)] []"

text \<open>\<open>'  '.join(map(str, line))\<close>: the fields, two spaces between them.\<close>

fun line_str :: "fstab_line \<Rightarrow> string" where
  "line_str (a, b, c, d, e, f) = join ''  '' [a, b, c, d, str_int e, str_int f]"

text \<open>The second loop appends each line to \<open>etc/fstab\<close> under the root.\<close>

fun append_lines :: "world \<Rightarrow> fstab_line list \<Rightarrow> string \<Rightarrow> unit prog" where
  "append_lines w [] r = return ()"
| "append_lines w (l # rest) r =
     seq (append_line_to_file w (line_str l) (os_path_join r ''etc/fstab''))
         (append_lines w rest r)"

definition write_fstab :: "world \<Rightarrow> MountSpecs \<Rightarrow> string \<Rightarrow> unit prog" where
  "write_fstab w mount_specs r = append_lines w (fstab_lines mount_specs) r"

section \<open>The installation run\<close>

datatype DesktopType = KDE

fun desktop_packages :: "DesktopType \<Rightarrow> string list" where
  "desktop_packages KDE = [''alacritty'', ''dolphin'', ''plasma-desktop'', ''sddm'', ''xorg-server'']"

fun display_manager :: "DesktopType \<Rightarrow> string" where
  "display_manager KDE = ''sddm''"

text \<open>
  The fields \<open>partitions\<close> and \<open>locale\<close> carry a suffix: the first name is used for
  variables throughout, the second is a keyword.
\<close>

record Configuration =
  partitions_cfg :: partition_table
  packages :: "string list"
  time_zone :: string
  locale_cfg :: string
  host_name :: string
  user_name :: string
  user_full_name :: string
  user_password :: string
  mirrors :: "string list"
  desktop :: "DesktopType option"
  drivers :: "string list"

text \<open>The content \<open>_configure_mirrors\<close> writes: one \<open>Server\<close> line per mirror.\<close>

definition mirrorlist :: "string list \<Rightarrow> string" where
  "mirrorlist ms = join [CHR 0x0A] (map (\<lambda>mirror. ''Server = '' @ mirror @ ''/$repo/os/$arch'') ms)"

definition configure_mirrors :: "world \<Rightarrow> string list \<Rightarrow> unit prog" where
  "configure_mirrors w ms = write_line_to_file w (mirrorlist ms) ''/etc/pacman.d/mirrorlist''"

definition install_packages :: "world \<Rightarrow> string list \<Rightarrow> string \<Rightarrow> unit prog" where
  "install_packages w pkgs r = run w (''pacstrap'' # r # pkgs)"

text \<open>
  \<open>_configure_system\<close> starts with the file system section: it resolves the mount specs
  and writes the fstab. The sections after it (time zone, locale, host name, network,
  boot, user, desktop) are outside the mount subsystem; they are the parameter
  \<open>remaining_sections\<close>, run only when the file system section has not raised.
\<close>

definition configure_system :: "world \<Rightarrow> Configuration \<Rightarrow> string \<Rightarrow> unit prog \<Rightarrow> unit prog" where
  "configure_system w configuration r remaining_sections tr =
     (case get_mount_specs (partitions_cfg configuration) of
        Inl e \<Rightarrow> (Inl e, tr)
      | Inr mount_specs \<Rightarrow> seq (write_fstab w mount_specs r) remaining_sections tr)"

text \<open>
  The list \<open>all_packages\<close> of \<open>main\<close>. A member of the enumeration is true, so
  \<open>if configuration.desktop\<close> is false for \<open>None\<close> only.
\<close>

definition all_packages :: "Configuration \<Rightarrow> string list" where
  "all_packages configuration =
     packages configuration @ drivers configuration @
     (case desktop configuration of None \<Rightarrow> [] | Some d \<Rightarrow> desktop_packages d)"

text \<open>
  \<open>main\<close>: partition the disks, then, inside the mount scope, configure the mirrors,
  install the packages and configure the system.
\<close>

definition main :: "world \<Rightarrow> Configuration \<Rightarrow> unit prog \<Rightarrow> unit prog" where
  "main w configuration remaining_sections =
     seq (partition_py w (partitions_cfg configuration))
         (mount_filesystems w (partitions_cfg configuration) ''/mnt''
            (seq (configure_mirrors w (mirrors configuration))
              (seq (install_packages w (all_packages configuration) ''/mnt'')
                   (configure_system w configuration ''/mnt'' remaining_sections))))"

text \<open>The partition table of \<open>_get_configuration\<close>.\<close>

definition configuration_partitions :: partition_table where
  "configuration_partitions =
     [(''/dev/sda'',
       [\<lparr>size = Some 256, partition_type = EFI_SYSTEM, file_system = FAT32,
          mount_point = ''/boot''\<rparr>,
        \<lparr>size = Some 10240, partition_type = LINUX_X86_64_ROOT, file_system = EXT4,
          mount_point = ''/''\<rparr>,
        \<lparr>size = None, partition_type = LINUX_HOME, file_system = BTRFS,
          mount_point = ''/home''\<rparr>])]"

section \<open>Recorded command sequences\<close>

text \<open>
  The vocabulary in which the properties are stated. \<open>all_ok w tr cs\<close>: each command of
  \<open>cs\<close>, run in this order after the trace \<open>tr\<close>, exits with code 0.
\<close>

primrec all_ok :: "world \<Rightarrow> trace \<Rightarrow> command list \<Rightarrow> bool" where
  "all_ok w tr [] = True"
| "all_ok w tr (c # cs) = (w tr c = Exit 0 \<and> all_ok w (tr @ [c]) cs)"

text \<open>Acquiring the pairs in order: \<open>mkdir\<close> then \<open>mount\<close> for each.\<close>

definition acquire_cmds :: "(string \<times> string) list \<Rightarrow> command list" where
  "acquire_cmds specs =
     concat (map (\<lambda>(target, source). [[''mkdir'', ''-p'', target], [''mount'', source, target]]) specs)"

text \<open>Releasing them: \<open>umount\<close> of each target, the last acquired first.\<close>

definition release_cmds :: "(string \<times> string) list \<Rightarrow> command list" where
  "release_cmds specs = map (\<lambda>(target, source). [''umount'', target]) (rev specs)"

text \<open>
  \<open>issued w tr cs\<close>: the commands of \<open>cs\<close> that are run when they are run in order and
  the first one that does not exit with code 0 aborts the rest.
\<close>

primrec issued :: "world \<Rightarrow> trace \<Rightarrow> command list \<Rightarrow> command list" where
  "issued w tr [] = []"
| "issued w tr (c # cs) = c # (if w tr c = Exit 0 then issued w (tr @ [c]) cs else [])"

text \<open>None of the commands, run in order, is interrupted by the operator.\<close>

primrec none_interrupted :: "world \<Rightarrow> trace \<Rightarrow> command list \<Rightarrow> bool" where
  "none_interrupted w tr [] = True"
| "none_interrupted w tr (c # cs) = (w tr c \<noteq> Interrupt \<and> none_interrupted w (tr @ [c]) cs)"

text \<open>Running a list of commands one after the other with \<open>_run\<close>.\<close>

fun run_all :: "world \<Rightarrow> command list \<Rightarrow> unit prog" where
  "run_all w [] = return ()"
| "run_all w (c # cs) = seq (run w c) (run_all w cs)"

text \<open>
  The \<open>finally\<close> clauses of the scopes of \<open>specs\<close>, from the innermost (the last pair)
  outwards, applied to the outcome \<open>rt\<close> of what they enclose.
\<close>

fun unwind :: "world \<Rightarrow> (string \<times> string) list \<Rightarrow> (exn + unit) \<times> trace \<Rightarrow> (exn + unit) \<times> trace" where
  "unwind w [] rt = rt"
| "unwind w ((target, source) # specs) rt =
     (case unwind w specs rt of (r, tr') \<Rightarrow>
        (case run w [''umount'', target] tr' of
           (Inl e, tr'') \<Rightarrow> (Inl e, tr'')
         | (Inr _, tr'') \<Rightarrow> (r, tr'')))"

subsection \<open>The partition table, entry by entry\<close>

text \<open>
  The partitions in the order both \<open>_get_mount_specs\<close> and \<open>_mount_filesystems\<close> visit
  them, each with its disk and its index from \<open>enumerate(partition_items, 1)\<close>.
\<close>

type_synonym entry = "string \<times> nat \<times> Partition"

definition table_entries :: "partition_table \<Rightarrow> entry list" where
  "table_entries partitions =
     [(d, i, partition_item).
        (d, partition_items) \<leftarrow> partitions,
        (i, partition_item) \<leftarrow> List.enumerate 1 partition_items]"

text \<open>The normalized mount point of an entry, and the \<open>MountSpec\<close> made from it.\<close>

definition key_of :: "entry \<Rightarrow> string" where
  "key_of e = rstrip_slash (mount_point (snd (snd e)))"

definition spec_of :: "entry \<Rightarrow> MountSpec" where
  "spec_of e =
     \<lparr>disk = fst e, partition_id = fst (snd e), file_system_name = name (file_system (snd (snd e)))\<rparr>"

definition normalized_mount_points :: "partition_table \<Rightarrow> string list" where
  "normalized_mount_points partitions = map key_of (table_entries partitions)"

text \<open>
  \<open>spec\<close> describes a partition with normalized mount point \<open>mp\<close> by its place in the
  table: the disk of the \<open>k\<close>-th item of the table and the position \<open>j + 1\<close> (counted
  from 1) in that disk's sequence.
\<close>

definition at_position :: "partition_table \<Rightarrow> string \<Rightarrow> MountSpec \<Rightarrow> bool" where
  "at_position partitions mp spec \<longleftrightarrow>
     (\<exists>k \<in> {0..<length partitions}. \<exists>j \<in> {0..<length (snd (partitions ! k))}.
        rstrip_slash (mount_point (snd (partitions ! k) ! j)) = mp \<and>
        spec = \<lparr>disk = fst (partitions ! k), partition_id = Suc j,
                file_system_name = name (file_system (snd (partitions ! k) ! j))\<rparr>)"

text \<open>The two loops of \<open>_get_mount_specs\<close> as one loop over the entries.\<close>

fun resolve_entries :: "entry list \<Rightarrow> (string \<rightharpoonup> MountSpec) \<Rightarrow> exn + (string \<rightharpoonup> MountSpec)" where
  "resolve_entries [] m = Inr m"
| "resolve_entries (e # es) m =
     (if m (key_of e) \<noteq> None then Inl (ValueError (already_exists (key_of e)))
      else resolve_entries es (m(key_of e \<mapsto> spec_of e)))"

subsection \<open>Fstab records\<close>

text \<open>
  The record of a mount spec: physical partition identifier, mount point, file system
  name, \<open>defaults\<close>, \<open>0\<close>, \<open>0\<close>, with two spaces between the fields.
\<close>

definition fstab_record :: "MountSpec \<Rightarrow> string \<Rightarrow> string" where
  "fstab_record spec target =
     disk spec @ str_nat (partition_id spec) @ ''  '' @ target @ ''  '' @
     file_system_name spec @ ''  defaults  0  0''"

text \<open>A role has a record when it is present and its disk is not the disk of the root.\<close>

definition role_records :: "MountSpecs \<Rightarrow> string \<Rightarrow> MountSpec option \<Rightarrow> string list" where
  "role_records ms target role =
     (case role of
        None \<Rightarrow> []
      | Some spec \<Rightarrow> if disk spec = disk (root ms) then [] else [fstab_record spec target])"

definition fstab_records :: "MountSpecs \<Rightarrow> string list" where
  "fstab_records ms = role_records ms ''/boot'' (boot ms) @ role_records ms ''/home'' (home ms)"

subsection \<open>Partitioning commands\<close>

text \<open>
  The create command as the specification words it: \<open>+<size>M\<close> when a size is given,
  all the remaining space when it is absent.
\<close>

definition create_cmd_spec :: "string \<Rightarrow> nat \<Rightarrow> int option \<Rightarrow> command" where
  "create_cmd_spec d i sz =
     (case sz of
        None \<Rightarrow> [''sgdisk'', ''-n='' @ str_nat i @ '':0:0'', d]
      | Some n \<Rightarrow> [''sgdisk'', ''-n='' @ str_nat i @ '':0:+'' @ str_int n @ ''M'', d])"

text \<open>The create command with a size of 0 treated like an absent size.\<close>

definition create_cmd :: "string \<Rightarrow> nat \<Rightarrow> int option \<Rightarrow> command" where
  "create_cmd d i sz =
     (if sz = None \<or> sz = Some 0 then [''sgdisk'', ''-n='' @ str_nat i @ '':0:0'', d]
      else [''sgdisk'', ''-n='' @ str_nat i @ '':0:+'' @ str_int (the sz) @ ''M'', d])"

text \<open>
  The whole sequence for a table: per disk the command that destroys the partition
  table, then per partition, in list order, create, set the type code, format.
\<close>

definition partition_cmds ::
  "(string \<Rightarrow> nat \<Rightarrow> int option \<Rightarrow> command) \<Rightarrow> partition_table \<Rightarrow> command list" where
  "partition_cmds create partitions =
     concat (map (\<lambda>(d, items).
       [''sgdisk'', ''-Z'', d] #
       concat (map (\<lambda>(i, p).
         [create d i (size p),
          [''sgdisk'', ''-t='' @ str_nat i @ '':'' @ type_id (partition_type p), d],
          formatter (file_system p) @ [d @ str_nat i]]) (List.enumerate 1 items))) partitions)"

subsection \<open>The commands of a run up to the resolver\<close>

text \<open>
  What \<open>main\<close> runs before \<open>_configure_system\<close> calls the resolver: the partitioning
  commands, the acquisition of every mount under \<open>/mnt\<close>, the command that writes the
  mirror list and \<open>pacstrap\<close>.
\<close>

definition commands_before_resolver :: "Configuration \<Rightarrow> command list" where
  "commands_before_resolver configuration =
     partition_cmds create_cmd (partitions_cfg configuration) @
     acquire_cmds (sorted_mount_specs (partitions_cfg configuration) ''/mnt'') @
     [write_line_args (mirrorlist (mirrors configuration)) ''/etc/pacman.d/mirrorlist'',
      ''pacstrap'' # ''/mnt'' # all_packages configuration]"

subsection \<open>Example inputs\<close>

text \<open>A world where every command succeeds, one where a given command exits with code
  32, and one where the operator interrupts a given command.\<close>

definition ok_world :: world where
  "ok_world tr c = Exit 0"

definition failing_world :: "command \<Rightarrow> world" where
  "failing_world bad tr c = (if c = bad then Exit 32 else Exit 0)"

definition interrupting_world :: "command \<Rightarrow> world" where
  "interrupting_world bad tr c = (if c = bad then Interrupt else Exit 0)"

text \<open>Two disks that both carry a partition for \<open>/boot\<close> (one written \<open>/boot/\<close>).\<close>

definition duplicate_boot_partitions :: partition_table where
  "duplicate_boot_partitions =
     [(''/dev/sda'',
       [\<lparr>size = Some 256, partition_type = EFI_SYSTEM, file_system = FAT32,
          mount_point = ''/boot''\<rparr>,
        \<lparr>size = None, partition_type = LINUX_X86_64_ROOT, file_system = EXT4,
          mount_point = ''/''\<rparr>]),
      (''/dev/sdb'',
       [\<lparr>size = Some 512, partition_type = EFI_SYSTEM, file_system = FAT32,
          mount_point = ''/boot/''\<rparr>,
        \<lparr>size = None, partition_type = LINUX_HOME, file_system = BTRFS,
          mount_point = ''/home''\<rparr>])]"

text \<open>
  The configuration of \<open>_get_configuration\<close> with the table above in place of its own.
\<close>

definition duplicate_boot_configuration :: Configuration where
  "duplicate_boot_configuration =
     \<lparr>partitions_cfg = duplicate_boot_partitions,
      packages = [''linux'', ''pacman'', ''sed'', ''sudo''],
      time_zone = ''Asia/Shanghai'',
      locale_cfg = ''en_US.UTF-8'',
      host_name = ''EFanZh-PC-Arch'',
      user_name = ''efanzh'',
      user_full_name = ''EFanZh'',
      user_password = ''1234'',
      mirrors = [''https://mirrors.tuna.tsinghua.edu.cn/archlinux'',
                 ''https://mirrors.ustc.edu.cn/archlinux''],
      desktop = Some KDE,
      drivers = [''xf86-video-fbdev'']\<rparr>"

text \<open>A root partition whose size is given as 0.\<close>

definition zero_size_partition :: Partition where
  "zero_size_partition =
     \<lparr>size = Some 0, partition_type = LINUX_X86_64_ROOT, file_system = EXT4,
      mount_point = ''/''\<rparr>"

definition zero_size_partitions :: partition_table where
  "zero_size_partitions = [(''/dev/sda'', [zero_size_partition])]"

text \<open>Root and boot on \<open>/dev/sda\<close>, home on \<open>/dev/sdb\<close>.\<close>

definition two_disk_mount_specs :: MountSpecs where
  "two_disk_mount_specs =
     \<lparr>root = \<lparr>disk = ''/dev/sda'', partition_id = 2, file_system_name = ''ext4''\<rparr>,
      boot = Some \<lparr>disk = ''/dev/sda'', partition_id = 1, file_system_name = ''vfat''\<rparr>,
      home = Some \<lparr>disk = ''/dev/sdb'', partition_id = 1, file_system_name = ''btrfs''\<rparr>\<rparr>"

section \<open>Lemmas about running commands and unwinding\<close>

lemma snd_run: "snd (run w c tr) = tr @ [c]"
  by (simp add: run_def split: outcome.split)

lemma run_ok: "w tr c = Exit 0 \<Longrightarrow> run w c tr = (Inr (), tr @ [c])"
  by (simp add: run_def)

lemma run_fail: "w tr c \<noteq> Exit 0 \<Longrightarrow> \<exists>e. run w c tr = (Inl e, tr @ [c])"
  by (simp add: run_def split: outcome.split)

lemma snd_unwind: "snd (unwind w specs (r, tr)) = tr @ release_cmds specs"
proof (induction specs arbitrary: r)
  case Nil
  then show ?case by (simp add: release_cmds_def)
next
  case (Cons p specs)
  obtain t s where p: "p = (t, s)" by (cases p)
  obtain r' where u: "unwind w specs (r, tr) = (r', tr @ release_cmds specs)"
    using Cons.IH [of r] by (cases "unwind w specs (r, tr)") simp
  have "snd (run w [''umount'', t] (tr @ release_cmds specs)) = tr @ release_cmds specs @ [[''umount'', t]]"
    by (simp add: snd_run)
  then show ?case
    by (cases "run w [''umount'', t] (tr @ release_cmds specs)")
       (auto simp: p u release_cmds_def split: sum.split)
qed

lemma unwind_Inl: "\<exists>e'. fst (unwind w specs (Inl e, tr)) = Inl e'"
proof (induction specs)
  case Nil
  then show ?case by simp
next
  case (Cons p specs)
  obtain t s where p: "p = (t, s)" by (cases p)
  from Cons obtain e' tr' where u: "unwind w specs (Inl e, tr) = (Inl e', tr')"
    by (cases "unwind w specs (Inl e, tr)") auto
  show ?case
    by (cases "run w [''umount'', t] tr'") (auto simp: p u split: sum.split)
qed

lemma all_ok_append: "all_ok w tr (a @ b) = (all_ok w tr a \<and> all_ok w (tr @ a) b)"
  by (induction a arbitrary: tr) auto

lemma unwind_all_ok:
  "all_ok w tr (release_cmds specs) \<Longrightarrow> unwind w specs (r, tr) = (r, tr @ release_cmds specs)"
proof (induction specs)
  case Nil
  then show ?case by (simp add: release_cmds_def)
next
  case (Cons p specs)
  obtain t s where p: "p = (t, s)" by (cases p)
  have split: "release_cmds ((t, s) # specs) = release_cmds specs @ [[''umount'', t]]"
    by (simp add: release_cmds_def)
  from Cons.prems have ok1: "all_ok w tr (release_cmds specs)"
    and ok2: "w (tr @ release_cmds specs) [''umount'', t] = Exit 0"
    by (simp_all add: p split all_ok_append)
  show ?case
    by (simp add: p Cons.IH [OF ok1] run_ok ok2 split)
qed

lemma unwind_append:
  "unwind w (a @ b) rt = unwind w a (unwind w b rt)"
  by (induction a) (auto split: prod.split sum.split)

lemma unwind_failed:
  assumes "w (tr @ release_cmds deeper) [''umount'', target] \<noteq> Exit 0"
  shows "\<exists>e. fst (unwind w (shallower @ (target, source) # deeper) (r, tr)) = Inl e"
proof -
  obtain r' where u: "unwind w deeper (r, tr) = (r', tr @ release_cmds deeper)"
    using snd_unwind [of w deeper r tr] by (cases "unwind w deeper (r, tr)") simp
  obtain e where f: "run w [''umount'', target] (tr @ release_cmds deeper) =
      (Inl e, tr @ release_cmds deeper @ [[''umount'', target]])"
    using run_fail [of w "tr @ release_cmds deeper" "[''umount'', target]"] assms by auto
  have "unwind w ((target, source) # deeper) (r, tr) =
      (Inl e, tr @ release_cmds deeper @ [[''umount'', target]])"
    by (simp add: u f)
  then show ?thesis
    using unwind_Inl [of w shallower e] by (simp add: unwind_append)
qed

lemma acquire_cmds_Cons:
  "acquire_cmds ((t, s) # specs) = [''mkdir'', ''-p'', t] # [''mount'', s, t] # acquire_cmds specs"
  by (simp add: acquire_cmds_def)

lemma acquire_cmds_append: "acquire_cmds (a @ b) = acquire_cmds a @ acquire_cmds b"
  by (simp add: acquire_cmds_def)

lemma release_cmds_append: "release_cmds (a @ b) = release_cmds b @ release_cmds a"
  by (simp add: release_cmds_def)

lemma do_mount_acquired:
  "all_ok w tr (acquire_cmds pre) \<Longrightarrow>
   do_mount w (pre @ post) body tr = unwind w pre (do_mount w post body (tr @ acquire_cmds pre))"
proof (induction pre arbitrary: tr)
  case Nil
  then show ?case by (simp add: acquire_cmds_def)
next
  case (Cons p pre)
  obtain t s where p: "p = (t, s)" by (cases p)
  from Cons.prems have ok1: "w tr [''mkdir'', ''-p'', t] = Exit 0"
    and ok2: "w (tr @ [[''mkdir'', ''-p'', t]]) [''mount'', s, t] = Exit 0"
    and ok3: "all_ok w (tr @ [[''mkdir'', ''-p'', t], [''mount'', s, t]]) (acquire_cmds pre)"
    by (simp_all add: p acquire_cmds_Cons)
  show ?case
    by (simp add: p seq_def try_finally_def run_ok ok1 ok2
        Cons.IH [OF ok3] acquire_cmds_Cons split: prod.split sum.split)
qed

lemma do_mount_all_acquired:
  "all_ok w tr (acquire_cmds specs) \<Longrightarrow>
   do_mount w specs body tr = unwind w specs (body (tr @ acquire_cmds specs))"
  using do_mount_acquired [of w tr specs "[]" body] by simp

lemma snd_run_all: "snd (run_all w cs tr) = tr @ issued w tr cs"
proof (induction cs arbitrary: tr)
  case Nil
  then show ?case by (simp add: return_def)
next
  case (Cons c cs)
  show ?case
  proof (cases "w tr c = Exit 0")
    case True
    then show ?thesis by (simp add: seq_def run_ok Cons.IH)
  next
    case False
    then obtain e where "run w c tr = (Inl e, tr @ [c])" using run_fail by blast
    with False show ?thesis by (simp add: seq_def)
  qed
qed

lemma do_mount_acquire_fails:
  assumes "\<not> all_ok w tr (acquire_cmds [(target, source)])"
  shows "do_mount w ((target, source) # post) body tr = run_all w (acquire_cmds [(target, source)]) tr"
    and "\<exists>e. fst (run_all w (acquire_cmds [(target, source)]) tr) = Inl e"
proof -
  show "do_mount w ((target, source) # post) body tr = run_all w (acquire_cmds [(target, source)]) tr"
  proof (cases "w tr [''mkdir'', ''-p'', target] = Exit 0")
    case True
    with assms have "w (tr @ [[''mkdir'', ''-p'', target]]) [''mount'', source, target] \<noteq> Exit 0"
      by (simp add: acquire_cmds_def)
    then obtain e where "run w [''mount'', source, target] (tr @ [[''mkdir'', ''-p'', target]]) =
        (Inl e, tr @ [[''mkdir'', ''-p'', target]] @ [[''mount'', source, target]])"
      using run_fail [of w "tr @ [[''mkdir'', ''-p'', target]]" "[''mount'', source, target]"] by auto
    with True show ?thesis
      by (simp add: seq_def run_ok acquire_cmds_def return_def)
  next
    case False
    then obtain e where "run w [''mkdir'', ''-p'', target] tr = (Inl e, tr @ [[''mkdir'', ''-p'', target]])"
      using run_fail [of w tr "[''mkdir'', ''-p'', target]"] by auto
    then show ?thesis by (simp add: seq_def acquire_cmds_def)
  qed
  show "\<exists>e. fst (run_all w (acquire_cmds [(target, source)]) tr) = Inl e"
  proof (cases "w tr [''mkdir'', ''-p'', target] = Exit 0")
    case True
    with assms have "w (tr @ [[''mkdir'', ''-p'', target]]) [''mount'', source, target] \<noteq> Exit 0"
      by (simp add: acquire_cmds_def)
    then obtain e where "run w [''mount'', source, target] (tr @ [[''mkdir'', ''-p'', target]]) =
        (Inl e, tr @ [[''mkdir'', ''-p'', target]] @ [[''mount'', source, target]])"
      using run_fail [of w "tr @ [[''mkdir'', ''-p'', target]]" "[''mount'', source, target]"] by auto
    with True show ?thesis
      by (simp add: seq_def run_ok acquire_cmds_def return_def)
  next
    case False
    then obtain e where "run w [''mkdir'', ''-p'', target] tr = (Inl e, tr @ [[''mkdir'', ''-p'', target]])"
      using run_fail [of w tr "[''mkdir'', ''-p'', target]"] by auto
    then show ?thesis by (simp add: seq_def acquire_cmds_def)
  qed
qed

lemma sorted_fst_sort: "sorted (map fst (sort (xs :: (string \<times> string) list)))"
proof -
  have "sorted_wrt (\<le>) (sort xs)" by simp
  then have "sorted_wrt (\<lambda>x y. fst x \<le> fst y) (sort xs)"
    by (rule sorted_wrt_mono_rel [rotated]) (auto simp: less_eq_prod_def)
  then show ?thesis by (simp add: sorted_map)
qed

lemma length_mount_pairs:
  "length (mount_pairs partitions r) = sum_list (map (\<lambda>(d, items). length items) partitions)"
  by (induction partitions) (auto simp: mount_pairs_def length_concat comp_def split_def)

lemma umounts_of_release: "filter (\<lambda>c. hd c = ''umount'') (release_cmds specs) = release_cmds specs"
  by (induction specs) (auto simp: release_cmds_def)

lemma umounts_of_acquire: "filter (\<lambda>c. hd c = ''umount'') (acquire_cmds specs) = []"
  by (induction specs) (auto simp: acquire_cmds_def)

lemma set_issued: "set (issued w tr cs) \<subseteq> set cs"
  by (induction cs arbitrary: tr) auto

lemma umounts_of_issued_acquire:
  "filter (\<lambda>c. hd c = ''umount'') (issued w tr (acquire_cmds specs)) = []"
proof -
  have "\<forall>c \<in> set (acquire_cmds specs). hd c \<noteq> ''umount''"
    by (auto simp: acquire_cmds_def)
  with set_issued [of w tr "acquire_cmds specs"] show ?thesis
    by (auto simp: filter_empty_conv)
qed

lemma none_interrupted_append:
  "none_interrupted w tr (a @ b) = (none_interrupted w tr a \<and> none_interrupted w (tr @ a) b)"
  by (induction a arbitrary: tr) auto

lemma run_Inl_interrupt:
  "run w c tr = (Inl KeyboardInterrupt, tr') \<Longrightarrow> w tr c = Interrupt"
  by (auto simp: run_def split: outcome.splits if_splits)

lemma unwind_interrupt:
  "fst (unwind w specs (r, tr)) = Inl KeyboardInterrupt \<Longrightarrow>
   none_interrupted w tr (release_cmds specs) \<Longrightarrow> all_ok w tr (release_cmds specs)"
proof (induction specs)
  case Nil
  then show ?case by (simp add: release_cmds_def)
next
  case (Cons p specs)
  obtain t s where p: "p = (t, s)" by (cases p)
  have split: "release_cmds ((t, s) # specs) = release_cmds specs @ [[''umount'', t]]"
    by (simp add: release_cmds_def)
  obtain r' where u: "unwind w specs (r, tr) = (r', tr @ release_cmds specs)"
    using snd_unwind [of w specs r tr] by (cases "unwind w specs (r, tr)") simp
  from Cons.prems(2) have ni1: "none_interrupted w tr (release_cmds specs)"
    and ni2: "w (tr @ release_cmds specs) [''umount'', t] \<noteq> Interrupt"
    by (simp_all add: p split none_interrupted_append)
  obtain ru tru where ru: "run w [''umount'', t] (tr @ release_cmds specs) = (ru, tru)"
    by (cases "run w [''umount'', t] (tr @ release_cmds specs)")
  have ok: "w (tr @ release_cmds specs) [''umount'', t] = Exit 0 \<and> r' = Inl KeyboardInterrupt"
  proof (cases ru)
    case (Inl e)
    with Cons.prems(1) have "e = KeyboardInterrupt" by (simp add: p u ru)
    with Inl ru ni2 run_Inl_interrupt [of w "[''umount'', t]" "tr @ release_cmds specs" tru]
    show ?thesis by simp
  next
    case (Inr x)
    with Cons.prems(1) have r': "r' = Inl KeyboardInterrupt" by (simp add: p u ru)
    from Inr ru have "w (tr @ release_cmds specs) [''umount'', t] = Exit 0"
      by (auto simp: run_def split: outcome.splits if_splits)
    with r' show ?thesis by simp
  qed
  then have "fst (unwind w specs (r, tr)) = Inl KeyboardInterrupt" by (simp add: u)
  from Cons.IH [OF this ni1] ok show ?case
    by (simp add: p split all_ok_append)
qed

section \<open>Lemmas about the resolver\<close>

lemma resolve_entries_append:
  "resolve_entries (a @ b) m =
     (case resolve_entries a m of Inl e \<Rightarrow> Inl e | Inr m' \<Rightarrow> resolve_entries b m')"
  by (induction a arbitrary: m) auto

lemma resolve_loop_entries:
  "resolve_loop d xs m = resolve_entries (map (\<lambda>(i, p). (d, i, p)) xs) m"
proof (induction xs arbitrary: m)
  case Nil
  then show ?case by simp
next
  case (Cons x xs)
  obtain i p where x: "x = (i, p)" by (cases x)
  show ?case
    by (simp add: x Let_def Cons.IH key_of_def spec_of_def fun_upd_def)
qed

lemma table_entries_Cons:
  "table_entries ((d, items) # rest) =
     map (\<lambda>(i, p). (d, i, p)) (List.enumerate 1 items) @ table_entries rest"
  by (simp add: table_entries_def split_def)

lemma resolve_disks_entries:
  "resolve_disks partitions m = resolve_entries (table_entries partitions) m"
proof (induction partitions arbitrary: m)
  case Nil
  then show ?case by (simp add: table_entries_def)
next
  case (Cons a partitions)
  obtain d items where a: "a = (d, items)" by (cases a)
  show ?case
    by (simp add: a table_entries_Cons resolve_entries_append resolve_loop_entries Cons.IH
        split: sum.split)
qed

lemma resolve_entries_ok:
  "distinct (map key_of es) \<Longrightarrow> \<forall>e \<in> set es. m (key_of e) = None \<Longrightarrow>
   resolve_entries es m = Inr (m ++ map_of (map (\<lambda>e. (key_of e, spec_of e)) es))"
proof (induction es arbitrary: m)
  case Nil
  then show ?case by simp
next
  case (Cons e es)
  have fresh: "map_of (map (\<lambda>e. (key_of e, spec_of e)) es) (key_of e) = None"
    using Cons.prems(1) by (auto simp: map_of_eq_None_iff image_image)
  have "key_of e \<notin> key_of ` set es"
    using Cons.prems(1) by simp
  then have "\<forall>x \<in> set es. key_of x \<noteq> key_of e"
    by (metis imageI)
  then have "\<forall>x \<in> set es. (m(key_of e \<mapsto> spec_of e)) (key_of x) = None"
    using Cons.prems(2) by simp
  with Cons.prems(1) have step: "resolve_entries es (m(key_of e \<mapsto> spec_of e)) =
      Inr (m(key_of e \<mapsto> spec_of e) ++ map_of (map (\<lambda>e. (key_of e, spec_of e)) es))"
    using Cons.IH by simp
  have eq: "m(key_of e \<mapsto> spec_of e) ++ map_of (map (\<lambda>e. (key_of e, spec_of e)) es) =
      m ++ map_of (map (\<lambda>e. (key_of e, spec_of e)) (e # es))"
    using fresh by (auto simp: map_add_def fun_eq_iff split: option.split)
  have "resolve_entries (e # es) m = resolve_entries es (m(key_of e \<mapsto> spec_of e))"
    using Cons.prems(2) by simp
  also note step
  also note eq
  finally show ?case .
qed

lemma resolve_entries_duplicate:
  assumes "distinct (map key_of pre)" and "key_of e \<in> set (map key_of pre)"
  shows "resolve_entries (pre @ e # post) Map.empty = Inl (ValueError (already_exists (key_of e)))"
proof -
  have "resolve_entries pre Map.empty = Inr (Map.empty ++ map_of (map (\<lambda>e. (key_of e, spec_of e)) pre))"
    using assms(1) by (intro resolve_entries_ok) auto
  moreover have "map_of (map (\<lambda>e. (key_of e, spec_of e)) pre) (key_of e) \<noteq> None"
    using assms(2) by (auto simp: map_of_eq_None_iff image_image)
  ultimately show ?thesis by (simp add: resolve_entries_append)
qed

lemma map_of_entries:
  "distinct (map key_of es) \<Longrightarrow> e \<in> set es \<Longrightarrow>
   map_of (map (\<lambda>e. (key_of e, spec_of e)) es) (key_of e) = Some (spec_of e)"
  by (induction es) (auto simp: rev_image_eqI)

lemma map_of_entries_None:
  "(map_of (map (\<lambda>e. (key_of e, spec_of e)) es) mp = None) = (mp \<notin> set (map key_of es))"
  by (auto simp: map_of_eq_None_iff image_image)

lemma map_of_entries_Some:
  "distinct (map key_of es) \<Longrightarrow> map_of (map (\<lambda>e. (key_of e, spec_of e)) es) mp = Some s \<Longrightarrow>
   \<exists>e \<in> set es. key_of e = mp \<and> spec_of e = s"
  by (auto dest!: map_of_SomeD)

lemma in_table_entries:
  "(d, i, p) \<in> set (table_entries partitions) \<Longrightarrow>
   \<exists>k \<in> {0..<length partitions}. \<exists>j \<in> {0..<length (snd (partitions ! k))}.
      d = fst (partitions ! k) \<and> i = Suc j \<and> p = snd (partitions ! k) ! j"
proof (induction partitions)
  case Nil
  then show ?case by (simp add: table_entries_def)
next
  case (Cons a partitions)
  obtain d' items where a: "a = (d', items)" by (cases a)
  from Cons.prems consider
    (here) "(d, i, p) \<in> set (map (\<lambda>(i, p). (d', i, p)) (List.enumerate 1 items))"
    | (there) "(d, i, p) \<in> set (table_entries partitions)"
    by (auto simp: a table_entries_Cons)
  then show ?case
  proof cases
    case here
    then have "d = d'" and "(i, p) \<in> set (List.enumerate 1 items)" by auto
    then have "d = d'" "1 \<le> i" "i < length items + 1" "items ! (i - 1) = p"
      by (auto simp: in_set_enumerate_eq)
    then have "i - 1 < length items \<and> d = fst ((a # partitions) ! 0) \<and> i = Suc (i - 1) \<and>
        p = snd ((a # partitions) ! 0) ! (i - 1)"
      by (auto simp: a)
    then show ?thesis
      by (intro bexI [of _ 0] bexI [of _ "i - 1"]) (auto simp: a)
  next
    case there
    from Cons.IH [OF this] obtain k j where "k < length partitions"
      "j < length (snd (partitions ! k))" "d = fst (partitions ! k)" "i = Suc j"
      "p = snd (partitions ! k) ! j"
      by auto
    then show ?thesis
      by (intro bexI [of _ "Suc k"] bexI [of _ j]) auto
  qed
qed

lemma get_mount_specs_entries:
  "get_mount_specs partitions =
     (case resolve_entries (table_entries partitions) Map.empty of
        Inl e \<Rightarrow> Inl e
      | Inr mount_points \<Rightarrow>
          (case mount_points [] of
             None \<Rightarrow> Inl (KeyError [])
           | Some r \<Rightarrow>
               Inr \<lparr>root = r, boot = mount_points ''/boot'', home = mount_points ''/home''\<rparr>))"
  by (simp add: get_mount_specs_def resolve_disks_entries)

lemma at_position_lookup:
  assumes "distinct (map key_of (table_entries partitions))"
    and "map_of (map (\<lambda>e. (key_of e, spec_of e)) (table_entries partitions)) mp = Some s"
  shows "at_position partitions mp s"
proof -
  from map_of_entries_Some [OF assms] obtain e where e: "e \<in> set (table_entries partitions)"
    "key_of e = mp" "spec_of e = s"
    by blast
  obtain d i p where dip: "e = (d, i, p)" by (cases e)
  from in_table_entries [of d i p partitions] e(1) obtain k j where
    "k \<in> {0..<length partitions}" "j \<in> {0..<length (snd (partitions ! k))}"
    "d = fst (partitions ! k)" "i = Suc j" "p = snd (partitions ! k) ! j"
    unfolding dip by blast
  with e(2,3) show ?thesis
    unfolding at_position_def dip key_of_def spec_of_def by auto
qed

section \<open>Lemmas about the fstab emitter and the partitioner\<close>

lemma str_int_0: "str_int 0 = ''0''"
  by code_simp

lemma line_str_record:
  "line_str (partition_of spec, target, file_system_name spec, ''defaults'', 0, 0) =
     fstab_record spec target"
  by (simp add: fstab_record_def partition_of_def str_int_0)

lemma fstab_lines_records: "map line_str (fstab_lines ms) = fstab_records ms"
  by (cases "boot ms"; cases "home ms")
     (simp_all add: fstab_lines_def fstab_records_def role_records_def line_str_record
        del: line_str.simps)

lemma run_all_append:
  "run_all w (a @ b) = seq (run_all w a) (run_all w b)"
proof (induction a)
  case Nil
  show ?case by (rule ext) (simp add: seq_def return_def)
next
  case (Cons c a)
  show ?case by (rule ext) (simp add: Cons seq_def split: prod.split sum.split)
qed

lemma run_all_ok: "all_ok w tr cs \<Longrightarrow> run_all w cs tr = (Inr (), tr @ cs)"
proof (induction cs arbitrary: tr)
  case Nil
  then show ?case by (simp add: return_def)
next
  case (Cons c cs)
  then show ?case by (simp add: seq_def run_ok)
qed

lemma append_lines_run_all:
  "append_lines w ls r =
     run_all w (map (\<lambda>l. append_line_args (line_str l) (os_path_join r ''etc/fstab'')) ls)"
  by (induction ls) (simp_all add: append_line_to_file_def del: line_str.simps)

lemma partition_loop_run_all:
  "partition_loop w d xs =
     run_all w (concat (map (\<lambda>(i, p).
         [create_cmd d i (size p),
          [''sgdisk'', ''-t='' @ str_nat i @ '':'' @ type_id (partition_type p), d],
          formatter (file_system p) @ [d @ str_nat i]]) xs))"
proof (induction xs)
  case Nil
  then show ?case by simp
next
  case (Cons x xs)
  obtain i p where x: "x = (i, p)" by (cases x)
  show ?case
    by (cases "size p") (simp_all add: x Cons create_cmd_def)
qed

lemma partition_py_run_all:
  "partition_py w partitions = run_all w (partition_cmds create_cmd partitions)"
proof (induction partitions)
  case Nil
  then show ?case by (simp add: partition_cmds_def)
next
  case (Cons a partitions)
  obtain d items where a: "a = (d, items)" by (cases a)
  have "partition_cmds create_cmd (a # partitions) =
      ([''sgdisk'', ''-Z'', d] #
       concat (map (\<lambda>(i, p).
         [create_cmd d i (size p),
          [''sgdisk'', ''-t='' @ str_nat i @ '':'' @ type_id (partition_type p), d],
          formatter (file_system p) @ [d @ str_nat i]]) (List.enumerate 1 items))) @
      partition_cmds create_cmd partitions"
    by (simp add: a partition_cmds_def)
  then show ?case
    by (simp add: a Cons partition_loop_run_all run_all_append)
qed

lemma sorted_specs_configuration:
  "sorted_mount_specs configuration_partitions ''/mnt'' =
     [(''/mnt'', ''/dev/sda2''), (''/mnt/boot'', ''/dev/sda1''), (''/mnt/home'', ''/dev/sda3'')]"
  by code_simp

lemma normalized_duplicate_boot:
  "normalized_mount_points duplicate_boot_partitions = [''/boot'', [], ''/boot'', ''/home'']"
  by code_simp

lemma resolved_duplicate_boot:
  "get_mount_specs duplicate_boot_partitions = Inl (ValueError (already_exists ''/boot''))"
  by code_simp

lemma normalized_configuration:
  "normalized_mount_points configuration_partitions = [''/boot'', [], ''/home'']"
  by code_simp

lemma resolved_configuration:
  "get_mount_specs configuration_partitions =
     Inr \<lparr>root = \<lparr>disk = ''/dev/sda'', partition_id = 2, file_system_name = ''ext4''\<rparr>,
          boot = Some \<lparr>disk = ''/dev/sda'', partition_id = 1, file_system_name = ''vfat''\<rparr>,
          home = Some \<lparr>disk = ''/dev/sda'', partition_id = 3, file_system_name = ''btrfs''\<rparr>\<rparr>"
  by code_simp

lemma partition_cmds_configuration:
  "partition_cmds create_cmd configuration_partitions =
     [[''sgdisk'', ''-Z'', ''/dev/sda''],
      [''sgdisk'', ''-n=1:0:+256M'', ''/dev/sda''],
      [''sgdisk'', ''-t=1:ef00'', ''/dev/sda''],
      [''mkfs.fat'', ''-F32'', ''/dev/sda1''],
      [''sgdisk'', ''-n=2:0:+10240M'', ''/dev/sda''],
      [''sgdisk'', ''-t=2:8304'', ''/dev/sda''],
      [''mkfs.ext4'', ''/dev/sda2''],
      [''sgdisk'', ''-n=3:0:0'', ''/dev/sda''],
      [''sgdisk'', ''-t=3:8302'', ''/dev/sda''],
      [''mkfs.btrfs'', ''-f'', ''/dev/sda3'']]"
proof -
  have n: "str_nat (Suc 0) = ''1''" "str_nat (Suc (Suc 0)) = ''2''"
    "str_nat (Suc (Suc (Suc 0))) = ''3''"
    by (simp_all add: str_nat.simps digit_char_def)
  have i: "str_int 256 = ''256''" "str_int 10240 = ''10240''"
    by (simp_all add: str_int_def str_nat.simps digit_char_def)
  show ?thesis
    by (simp add: partition_cmds_def create_cmd_def configuration_partitions_def n i)
qed

section \<open>Lemmas about the installation run\<close>

lemma main_resolver_fails:
  assumes "get_mount_specs (partitions_cfg configuration) = Inl e"
    and "all_ok w tr (commands_before_resolver configuration)"
  shows "main w configuration remaining tr =
           unwind w (sorted_mount_specs (partitions_cfg configuration) ''/mnt'')
             (Inl e, tr @ commands_before_resolver configuration)"
proof -
  let ?ps = "partitions_cfg configuration"
  let ?pc = "partition_cmds create_cmd ?ps"
  let ?specs = "sorted_mount_specs ?ps ''/mnt''"
  let ?m = "write_line_args (mirrorlist (mirrors configuration)) ''/etc/pacman.d/mirrorlist''"
  let ?p = "''pacstrap'' # ''/mnt'' # all_packages configuration"
  let ?body = "seq (configure_mirrors w (mirrors configuration))
      (seq (install_packages w (all_packages configuration) ''/mnt'')
           (configure_system w configuration ''/mnt'' remaining))"
  from assms(2) have ok1: "all_ok w tr ?pc"
    and ok2: "all_ok w (tr @ ?pc) (acquire_cmds ?specs)"
    and ok3: "w (tr @ ?pc @ acquire_cmds ?specs) ?m = Exit 0"
    and ok4: "w (tr @ ?pc @ acquire_cmds ?specs @ [?m]) ?p = Exit 0"
    by (simp_all add: commands_before_resolver_def all_ok_append)
  have p: "partition_py w ?ps tr = (Inr (), tr @ ?pc)"
    using run_all_ok [OF ok1] by (simp add: partition_py_run_all)
  have b: "?body ((tr @ ?pc) @ acquire_cmds ?specs) =
      (Inl e, tr @ commands_before_resolver configuration)"
    using ok3 ok4 assms(1)
    by (simp add: seq_def configure_mirrors_def write_line_to_file_def install_packages_def
        configure_system_def run_ok commands_before_resolver_def)
  have "main w configuration remaining tr = do_mount w ?specs ?body (tr @ ?pc)"
    by (simp add: main_def seq_def p mount_filesystems_def)
  also have "\<dots> = unwind w ?specs (?body ((tr @ ?pc) @ acquire_cmds ?specs))"
    by (rule do_mount_all_acquired [OF ok2])
  finally show ?thesis by (simp only: b)
qed

lemma sorted_specs_duplicate_boot:
  "sorted_mount_specs duplicate_boot_partitions ''/mnt'' =
     [(''/mnt'', ''/dev/sda2''), (''/mnt/boot'', ''/dev/sda1''),
      (''/mnt/boot'', ''/dev/sdb1''), (''/mnt/home'', ''/dev/sdb2'')]"
  by code_simp

lemma partition_cmds_duplicate_boot:
  "partition_cmds create_cmd duplicate_boot_partitions =
     [[''sgdisk'', ''-Z'', ''/dev/sda''],
      [''sgdisk'', ''-n=1:0:+256M'', ''/dev/sda''],
      [''sgdisk'', ''-t=1:ef00'', ''/dev/sda''],
      [''mkfs.fat'', ''-F32'', ''/dev/sda1''],
      [''sgdisk'', ''-n=2:0:0'', ''/dev/sda''],
      [''sgdisk'', ''-t=2:8304'', ''/dev/sda''],
      [''mkfs.ext4'', ''/dev/sda2''],
      [''sgdisk'', ''-Z'', ''/dev/sdb''],
      [''sgdisk'', ''-n=1:0:+512M'', ''/dev/sdb''],
      [''sgdisk'', ''-t=1:ef00'', ''/dev/sdb''],
      [''mkfs.fat'', ''-F32'', ''/dev/sdb1''],
      [''sgdisk'', ''-n=2:0:0'', ''/dev/sdb''],
      [''sgdisk'', ''-t=2:8302'', ''/dev/sdb''],
      [''mkfs.btrfs'', ''-f'', ''/dev/sdb2'']]"
proof -
  have n: "str_nat (Suc 0) = ''1''" "str_nat (Suc (Suc 0)) = ''2''"
    by (simp_all add: str_nat.simps digit_char_def)
  have i: "str_int 256 = ''256''" "str_int 512 = ''512''"
    by (simp_all add: str_int_def str_nat.simps digit_char_def)
  show ?thesis
    by (simp add: partition_cmds_def create_cmd_def duplicate_boot_partitions_def n i)
qed

lemma commands_before_duplicate_boot:
  "commands_before_resolver duplicate_boot_configuration =
     [[''sgdisk'', ''-Z'', ''/dev/sda''],
      [''sgdisk'', ''-n=1:0:+256M'', ''/dev/sda''],
      [''sgdisk'', ''-t=1:ef00'', ''/dev/sda''],
      [''mkfs.fat'', ''-F32'', ''/dev/sda1''],
      [''sgdisk'', ''-n=2:0:0'', ''/dev/sda''],
      [''sgdisk'', ''-t=2:8304'', ''/dev/sda''],
      [''mkfs.ext4'', ''/dev/sda2''],
      [''sgdisk'', ''-Z'', ''/dev/sdb''],
      [''sgdisk'', ''-n=1:0:+512M'', ''/dev/sdb''],
      [''sgdisk'', ''-t=1:ef00'', ''/dev/sdb''],
      [''mkfs.fat'', ''-F32'', ''/dev/sdb1''],
      [''sgdisk'', ''-n=2:0:0'', ''/dev/sdb''],
      [''sgdisk'', ''-t=2:8302'', ''/dev/sdb''],
      [''mkfs.btrfs'', ''-f'', ''/dev/sdb2''],
      [''mkdir'', ''-p'', ''/mnt''], [''mount'', ''/dev/sda2'', ''/mnt''],
      [''mkdir'', ''-p'', ''/mnt/boot''], [''mount'', ''/dev/sda1'', ''/mnt/boot''],
      [''mkdir'', ''-p'', ''/mnt/boot''], [''mount'', ''/dev/sdb1'', ''/mnt/boot''],
      [''mkdir'', ''-p'', ''/mnt/home''], [''mount'', ''/dev/sdb2'', ''/mnt/home''],
      write_line_args (mirrorlist (mirrors duplicate_boot_configuration))
        ''/etc/pacman.d/mirrorlist'',
      [''pacstrap'', ''/mnt'', ''linux'', ''pacman'', ''sed'', ''sudo'', ''xf86-video-fbdev'',
       ''alacritty'', ''dolphin'', ''plasma-desktop'', ''sddm'', ''xorg-server'']]"
proof -
  have ps: "partitions_cfg duplicate_boot_configuration = duplicate_boot_partitions"
    by (simp add: duplicate_boot_configuration_def)
  have pk: "all_packages duplicate_boot_configuration =
      [''linux'', ''pacman'', ''sed'', ''sudo'', ''xf86-video-fbdev'',
       ''alacritty'', ''dolphin'', ''plasma-desktop'', ''sddm'', ''xorg-server'']"
    by (simp add: all_packages_def duplicate_boot_configuration_def)
  show ?thesis
    unfolding commands_before_resolver_def ps pk partition_cmds_duplicate_boot
      sorted_specs_duplicate_boot
    by (simp add: acquire_cmds_def)
qed

section \<open>Mount orchestrator: order of mounting and unmounting\<close>

text \<open>
  Claim C1. \<open>_mount_filesystems\<close> composed with \<open>_do_mount\<close> takes the (target, source)
  pairs of the table, one per partition, in ascending order of target path. When every
  \<open>mkdir\<close> and \<open>mount\<close> succeeds, the body starts on the trace that holds, for each pair
  in that order, \<open>mkdir\<close> then \<open>mount\<close>; when the body then ends normally, the scope adds
  exactly one \<open>umount\<close> per pair, in the reverse order, and ends normally itself if the
  unmounts succeed.
\<close>

theorem mount_filesystems_order:
  assumes "all_ok w tr (acquire_cmds (sorted_mount_specs partitions r))"
    and "body (tr @ acquire_cmds (sorted_mount_specs partitions r)) = (Inr (), trb)"
  shows "mset (sorted_mount_specs partitions r) = mset (mount_pairs partitions r) \<and>
         sorted (map fst (sorted_mount_specs partitions r)) \<and>
         length (release_cmds (sorted_mount_specs partitions r)) =
           sum_list (map (\<lambda>(d, items). length items) partitions) \<and>
         snd (mount_filesystems w partitions r body tr) =
           trb @ release_cmds (sorted_mount_specs partitions r) \<and>
         (all_ok w trb (release_cmds (sorted_mount_specs partitions r)) \<longrightarrow>
            fst (mount_filesystems w partitions r body tr) = Inr ())"
proof -
  let ?specs = "sorted_mount_specs partitions r"
  have m: "mount_filesystems w partitions r body tr = unwind w ?specs (Inr (), trb)"
    using do_mount_all_acquired [of w tr ?specs body] assms
    by (simp add: mount_filesystems_def)
  have "length (release_cmds ?specs) = length (mount_pairs partitions r)"
    by (simp add: release_cmds_def sorted_mount_specs_def)
  then show ?thesis
    by (simp add: m snd_unwind unwind_all_ok length_mount_pairs sorted_fst_sort
        sorted_mount_specs_def)
qed

theorem mount_filesystems_order_witness:
  "all_ok ok_world [] (acquire_cmds (sorted_mount_specs configuration_partitions ''/mnt'')) \<and>
   return () ([] @ acquire_cmds (sorted_mount_specs configuration_partitions ''/mnt'')) =
     (Inr (), acquire_cmds (sorted_mount_specs configuration_partitions ''/mnt'')) \<and>
   mount_filesystems ok_world configuration_partitions ''/mnt'' (return ()) [] =
     (Inr (),
      [[''mkdir'', ''-p'', ''/mnt''], [''mount'', ''/dev/sda2'', ''/mnt''],
       [''mkdir'', ''-p'', ''/mnt/boot''], [''mount'', ''/dev/sda1'', ''/mnt/boot''],
       [''mkdir'', ''-p'', ''/mnt/home''], [''mount'', ''/dev/sda3'', ''/mnt/home''],
       [''umount'', ''/mnt/home''], [''umount'', ''/mnt/boot''], [''umount'', ''/mnt'']])"
proof -
  let ?specs = "sorted_mount_specs configuration_partitions ''/mnt''"
  have h1: "all_ok ok_world [] (acquire_cmds ?specs)"
    by (simp add: sorted_specs_configuration acquire_cmds_def ok_world_def)
  have h2: "return () ([] @ acquire_cmds ?specs) = (Inr (), acquire_cmds ?specs)"
    by (simp add: return_def)
  have h3: "all_ok ok_world (acquire_cmds ?specs) (release_cmds ?specs)"
    by (simp add: sorted_specs_configuration acquire_cmds_def release_cmds_def ok_world_def)
  from mount_filesystems_order [where body = "return ()" and tr = "[]", OF h1 h2] h3
  have "snd (mount_filesystems ok_world configuration_partitions ''/mnt'' (return ()) []) =
      acquire_cmds ?specs @ release_cmds ?specs"
    and "fst (mount_filesystems ok_world configuration_partitions ''/mnt'' (return ()) []) = Inr ()"
    by simp_all
  then have "mount_filesystems ok_world configuration_partitions ''/mnt'' (return ()) [] =
      (Inr (), acquire_cmds ?specs @ release_cmds ?specs)"
    by (simp add: prod_eq_iff)
  with h1 h2 show ?thesis
    by (simp add: sorted_specs_configuration acquire_cmds_def release_cmds_def)
qed

text \<open>
  Claim C2. When the pairs before the \<open>k\<close>-th are acquired and the \<open>mkdir\<close> or the
  \<open>mount\<close> of the \<open>k\<close>-th pair fails, the trace is: the acquisitions of the first
  \<open>k - 1\<close> pairs, the commands of the \<open>k\<close>-th up to the failing one, then the \<open>umount\<close>
  of the first \<open>k - 1\<close> targets in reverse order. These are the only \<open>umount\<close> commands
  run, there are \<open>k - 1\<close> of them, the body is not run, and the scope ends with an
  exception: the one of the failed acquisition when the unmounts succeed.
\<close>

theorem acquisition_failure_unwinds:
  assumes "all_ok w tr (acquire_cmds pre)"
    and "\<not> all_ok w (tr @ acquire_cmds pre) (acquire_cmds [(target, source)])"
  shows "snd (do_mount w (pre @ (target, source) # post) body tr) =
           tr @ acquire_cmds pre @
           issued w (tr @ acquire_cmds pre) (acquire_cmds [(target, source)]) @
           release_cmds pre \<and>
         filter (\<lambda>c. hd c = ''umount'')
           (drop (length tr) (snd (do_mount w (pre @ (target, source) # post) body tr))) =
           release_cmds pre \<and>
         length (release_cmds pre) = length pre \<and>
         (\<exists>e. fst (do_mount w (pre @ (target, source) # post) body tr) = Inl e) \<and>
         (all_ok w (tr @ acquire_cmds pre @
                    issued w (tr @ acquire_cmds pre) (acquire_cmds [(target, source)]))
                 (release_cmds pre) \<longrightarrow>
            fst (do_mount w (pre @ (target, source) # post) body tr) =
            fst (run_all w (acquire_cmds [(target, source)]) (tr @ acquire_cmds pre)))"
proof -
  let ?tr1 = "tr @ acquire_cmds pre"
  let ?k = "run_all w (acquire_cmds [(target, source)]) ?tr1"
  let ?iss = "issued w ?tr1 (acquire_cmds [(target, source)])"
  obtain e where e: "?k = (Inl e, ?tr1 @ ?iss)"
    using do_mount_acquire_fails(2) [OF assms(2)] snd_run_all [of w "acquire_cmds [(target, source)]" ?tr1]
    by (cases ?k) auto
  have d: "do_mount w (pre @ (target, source) # post) body tr = unwind w pre (Inl e, ?tr1 @ ?iss)"
    using do_mount_acquired [OF assms(1), of "(target, source) # post" body]
      do_mount_acquire_fails(1) [OF assms(2), of post body] e
    by simp
  have tr: "snd (do_mount w (pre @ (target, source) # post) body tr) =
      tr @ acquire_cmds pre @ ?iss @ release_cmds pre"
    by (simp add: d snd_unwind)
  have f: "filter (\<lambda>c. hd c = ''umount'') (acquire_cmds pre @ ?iss @ release_cmds pre) = release_cmds pre"
    by (simp add: umounts_of_acquire umounts_of_issued_acquire umounts_of_release)
  have l: "length (release_cmds pre) = length pre"
    by (simp add: release_cmds_def)
  have ex: "\<exists>e'. fst (do_mount w (pre @ (target, source) # post) body tr) = Inl e'"
    using unwind_Inl [of w pre e "?tr1 @ ?iss"] by (simp add: d)
  have ok: "all_ok w (tr @ acquire_cmds pre @ ?iss) (release_cmds pre) \<longrightarrow>
      fst (do_mount w (pre @ (target, source) # post) body tr) = fst ?k"
    using unwind_all_ok [of w "?tr1 @ ?iss" pre "Inl e"] by (simp add: d e)
  from tr f l ex ok show ?thesis by simp
qed

theorem acquisition_failure_unwinds_witness:
  "all_ok (failing_world [''mount'', ''/dev/sda1'', ''/mnt/boot'']) []
     (acquire_cmds [(''/mnt'', ''/dev/sda2'')]) \<and>
   \<not> all_ok (failing_world [''mount'', ''/dev/sda1'', ''/mnt/boot''])
     ([] @ acquire_cmds [(''/mnt'', ''/dev/sda2'')])
     (acquire_cmds [(''/mnt/boot'', ''/dev/sda1'')]) \<and>
   do_mount (failing_world [''mount'', ''/dev/sda1'', ''/mnt/boot''])
     ([(''/mnt'', ''/dev/sda2'')] @ (''/mnt/boot'', ''/dev/sda1'') # [(''/mnt/home'', ''/dev/sda3'')])
     (return ()) [] =
     (Inl (CalledProcessError 32 [''mount'', ''/dev/sda1'', ''/mnt/boot'']),
      [[''mkdir'', ''-p'', ''/mnt''], [''mount'', ''/dev/sda2'', ''/mnt''],
       [''mkdir'', ''-p'', ''/mnt/boot''], [''mount'', ''/dev/sda1'', ''/mnt/boot''],
       [''umount'', ''/mnt'']])"
proof -
  let ?w = "failing_world [''mount'', ''/dev/sda1'', ''/mnt/boot'']"
  let ?pre = "[(''/mnt'', ''/dev/sda2'')]"
  let ?post = "[(''/mnt/home'', ''/dev/sda3'')]"
  let ?run = "do_mount ?w (?pre @ (''/mnt/boot'', ''/dev/sda1'') # ?post) (return ()) []"
  have h1: "all_ok ?w [] (acquire_cmds ?pre)"
    by (simp add: acquire_cmds_def failing_world_def)
  have h2: "\<not> all_ok ?w ([] @ acquire_cmds ?pre) (acquire_cmds [(''/mnt/boot'', ''/dev/sda1'')])"
    by (simp add: acquire_cmds_def failing_world_def)
  have iss: "issued ?w ([] @ acquire_cmds ?pre) (acquire_cmds [(''/mnt/boot'', ''/dev/sda1'')]) =
      [[''mkdir'', ''-p'', ''/mnt/boot''], [''mount'', ''/dev/sda1'', ''/mnt/boot'']]"
    by (simp add: acquire_cmds_def failing_world_def)
  have h3: "all_ok ?w ([] @ acquire_cmds ?pre @
      issued ?w ([] @ acquire_cmds ?pre) (acquire_cmds [(''/mnt/boot'', ''/dev/sda1'')]))
      (release_cmds ?pre)"
    by (simp add: iss) (simp add: acquire_cmds_def release_cmds_def failing_world_def)
  have k: "fst (run_all ?w (acquire_cmds [(''/mnt/boot'', ''/dev/sda1'')]) ([] @ acquire_cmds ?pre)) =
      Inl (CalledProcessError 32 [''mount'', ''/dev/sda1'', ''/mnt/boot''])"
    by (simp add: acquire_cmds_def failing_world_def seq_def run_def return_def)
  from acquisition_failure_unwinds [where body = "return ()" and post = ?post and tr = "[]", OF h1 h2] h3
  have "snd ?run = [] @ acquire_cmds ?pre @
      issued ?w ([] @ acquire_cmds ?pre) (acquire_cmds [(''/mnt/boot'', ''/dev/sda1'')]) @
      release_cmds ?pre"
    and "fst ?run =
      fst (run_all ?w (acquire_cmds [(''/mnt/boot'', ''/dev/sda1'')]) ([] @ acquire_cmds ?pre))"
    by blast+
  then have "?run = (Inl (CalledProcessError 32 [''mount'', ''/dev/sda1'', ''/mnt/boot'']),
      acquire_cmds ?pre @
      [[''mkdir'', ''-p'', ''/mnt/boot''], [''mount'', ''/dev/sda1'', ''/mnt/boot'']] @
      release_cmds ?pre)"
    unfolding k iss by (simp add: prod_eq_iff)
  with h1 h2 show ?thesis
    by (simp add: acquire_cmds_def release_cmds_def)
qed

text \<open>
  Claim C3. When all the pairs are acquired and the body raises, the scope still adds
  the \<open>umount\<close> of every target, the last acquired first, one per pair, and then ends
  with an exception: the one of the body when the unmounts succeed.
\<close>

theorem body_error_unwinds:
  assumes "all_ok w tr (acquire_cmds specs)"
    and "body (tr @ acquire_cmds specs) = (Inl e, trb)"
  shows "snd (do_mount w specs body tr) = trb @ release_cmds specs \<and>
         length (release_cmds specs) = length specs \<and>
         (\<exists>e'. fst (do_mount w specs body tr) = Inl e') \<and>
         (all_ok w trb (release_cmds specs) \<longrightarrow> fst (do_mount w specs body tr) = Inl e)"
  using do_mount_all_acquired [OF assms(1), of body] assms(2)
    unwind_Inl [of w specs e trb] unwind_all_ok [of w trb specs "Inl e"]
  by (simp add: snd_unwind release_cmds_def)

theorem body_error_unwinds_witness:
  "all_ok (failing_world [''pacstrap'', ''/mnt'', ''linux'']) []
     (acquire_cmds [(''/mnt'', ''/dev/sda2''), (''/mnt/boot'', ''/dev/sda1'')]) \<and>
   run (failing_world [''pacstrap'', ''/mnt'', ''linux'']) [''pacstrap'', ''/mnt'', ''linux'']
     ([] @ acquire_cmds [(''/mnt'', ''/dev/sda2''), (''/mnt/boot'', ''/dev/sda1'')]) =
     (Inl (CalledProcessError 32 [''pacstrap'', ''/mnt'', ''linux'']),
      acquire_cmds [(''/mnt'', ''/dev/sda2''), (''/mnt/boot'', ''/dev/sda1'')] @
      [[''pacstrap'', ''/mnt'', ''linux'']]) \<and>
   do_mount (failing_world [''pacstrap'', ''/mnt'', ''linux''])
     [(''/mnt'', ''/dev/sda2''), (''/mnt/boot'', ''/dev/sda1'')]
     (run (failing_world [''pacstrap'', ''/mnt'', ''linux'']) [''pacstrap'', ''/mnt'', ''linux'']) [] =
     (Inl (CalledProcessError 32 [''pacstrap'', ''/mnt'', ''linux'']),
      [[''mkdir'', ''-p'', ''/mnt''], [''mount'', ''/dev/sda2'', ''/mnt''],
       [''mkdir'', ''-p'', ''/mnt/boot''], [''mount'', ''/dev/sda1'', ''/mnt/boot''],
       [''pacstrap'', ''/mnt'', ''linux''],
       [''umount'', ''/mnt/boot''], [''umount'', ''/mnt'']])"
proof -
  let ?c = "[''pacstrap'', ''/mnt'', ''linux'']"
  let ?w = "failing_world ?c"
  let ?specs = "[(''/mnt'', ''/dev/sda2''), (''/mnt/boot'', ''/dev/sda1'')]"
  let ?run = "do_mount ?w ?specs (run ?w ?c) []"
  have h1: "all_ok ?w [] (acquire_cmds ?specs)"
    by (simp add: acquire_cmds_def failing_world_def)
  have h2: "run ?w ?c ([] @ acquire_cmds ?specs) =
      (Inl (CalledProcessError 32 ?c), acquire_cmds ?specs @ [?c])"
    by (simp add: run_def failing_world_def)
  have h3: "all_ok ?w (acquire_cmds ?specs @ [?c]) (release_cmds ?specs)"
    by (simp add: acquire_cmds_def release_cmds_def failing_world_def)
  from body_error_unwinds [where body = "run ?w ?c" and tr = "[]", OF h1 h2] h3
  have "snd ?run = (acquire_cmds ?specs @ [?c]) @ release_cmds ?specs"
    and "fst ?run = Inl (CalledProcessError 32 ?c)"
    by blast+
  then have "?run = (Inl (CalledProcessError 32 ?c),
      (acquire_cmds ?specs @ [?c]) @ release_cmds ?specs)"
    by (simp add: prod_eq_iff)
  with h1 h2 show ?thesis
    by (simp add: acquire_cmds_def release_cmds_def)
qed

text \<open>
  Claim C4. When all the pairs are acquired and, during the teardown, the \<open>umount\<close> of
  some target fails, the \<open>umount\<close> of every shallower target (every pair acquired before
  it) is still run after it, in reverse order of acquisition; only then does the scope
  end, with an exception.
\<close>

theorem failed_umount_does_not_stop_teardown:
  assumes "all_ok w tr (acquire_cmds (shallower @ (target, source) # deeper))"
    and "body (tr @ acquire_cmds (shallower @ (target, source) # deeper)) = (r, trb)"
    and "w (trb @ release_cmds deeper) [''umount'', target] \<noteq> Exit 0"
  shows "snd (do_mount w (shallower @ (target, source) # deeper) body tr) =
           trb @ release_cmds deeper @ [''umount'', target] # release_cmds shallower \<and>
         (\<exists>e. fst (do_mount w (shallower @ (target, source) # deeper) body tr) = Inl e)"
  using do_mount_all_acquired [OF assms(1), of body] assms(2)
    unwind_failed [of w trb deeper target shallower source r] assms(3)
  by (simp add: snd_unwind release_cmds_def)

theorem failed_umount_does_not_stop_teardown_witness:
  "all_ok (failing_world [''umount'', ''/mnt/boot'']) []
     (acquire_cmds ([(''/mnt'', ''/dev/sda2'')] @ (''/mnt/boot'', ''/dev/sda1'') #
                    [(''/mnt/home'', ''/dev/sda3'')])) \<and>
   failing_world [''umount'', ''/mnt/boot'']
     (acquire_cmds ([(''/mnt'', ''/dev/sda2'')] @ (''/mnt/boot'', ''/dev/sda1'') #
                    [(''/mnt/home'', ''/dev/sda3'')]) @
      release_cmds [(''/mnt/home'', ''/dev/sda3'')])
     [''umount'', ''/mnt/boot''] \<noteq> Exit 0 \<and>
   snd (do_mount (failing_world [''umount'', ''/mnt/boot''])
     ([(''/mnt'', ''/dev/sda2'')] @ (''/mnt/boot'', ''/dev/sda1'') # [(''/mnt/home'', ''/dev/sda3'')])
     (return ()) []) =
     [[''mkdir'', ''-p'', ''/mnt''], [''mount'', ''/dev/sda2'', ''/mnt''],
      [''mkdir'', ''-p'', ''/mnt/boot''], [''mount'', ''/dev/sda1'', ''/mnt/boot''],
      [''mkdir'', ''-p'', ''/mnt/home''], [''mount'', ''/dev/sda3'', ''/mnt/home''],
      [''umount'', ''/mnt/home''], [''umount'', ''/mnt/boot''], [''umount'', ''/mnt'']] \<and>
   (\<exists>e. fst (do_mount (failing_world [''umount'', ''/mnt/boot''])
     ([(''/mnt'', ''/dev/sda2'')] @ (''/mnt/boot'', ''/dev/sda1'') # [(''/mnt/home'', ''/dev/sda3'')])
     (return ()) []) = Inl e)"
proof -
  let ?w = "failing_world [''umount'', ''/mnt/boot'']"
  let ?sh = "[(''/mnt'', ''/dev/sda2'')]"
  let ?dp = "[(''/mnt/home'', ''/dev/sda3'')]"
  let ?specs = "?sh @ (''/mnt/boot'', ''/dev/sda1'') # ?dp"
  have h1: "all_ok ?w [] (acquire_cmds ?specs)"
    by (simp add: acquire_cmds_def failing_world_def)
  have h2: "return () ([] @ acquire_cmds ?specs) = (Inr (), acquire_cmds ?specs)"
    by (simp add: return_def)
  have h3: "?w (acquire_cmds ?specs @ release_cmds ?dp) [''umount'', ''/mnt/boot''] \<noteq> Exit 0"
    by (simp add: failing_world_def)
  from failed_umount_does_not_stop_teardown [where body = "return ()" and tr = "[]", OF h1 h2 h3] h1 h3
  show ?thesis
    by (simp add: acquire_cmds_def release_cmds_def)
qed

text \<open>
  Claim C5. When all the pairs are acquired and the body is cut short by an operator
  interrupt (\<open>_run\<close> re-raises the \<open>KeyboardInterrupt\<close> of \<open>subprocess.run\<close>, or the body
  raises it itself), the scope still adds the \<open>umount\<close> of every target in reverse order
  and ends with an exception. It ends with \<open>KeyboardInterrupt\<close> when every unmount
  succeeds; and if it ends with \<open>KeyboardInterrupt\<close> while no unmount was itself
  interrupted, then every unmount has succeeded: no mount is left behind.
\<close>

theorem interrupt_unwinds:
  assumes "all_ok w tr (acquire_cmds specs)"
    and "body (tr @ acquire_cmds specs) = (Inl KeyboardInterrupt, trb)"
  shows "snd (do_mount w specs body tr) = trb @ release_cmds specs \<and>
         (\<exists>e. fst (do_mount w specs body tr) = Inl e) \<and>
         (fst (do_mount w specs body tr) = Inl KeyboardInterrupt \<and>
          none_interrupted w trb (release_cmds specs) \<longrightarrow>
            all_ok w trb (release_cmds specs)) \<and>
         (all_ok w trb (release_cmds specs) \<longrightarrow>
            fst (do_mount w specs body tr) = Inl KeyboardInterrupt)"
  using do_mount_all_acquired [OF assms(1), of body] assms(2)
    unwind_Inl [of w specs KeyboardInterrupt trb]
    unwind_all_ok [of w trb specs "Inl KeyboardInterrupt"]
    unwind_interrupt [of w specs "Inl KeyboardInterrupt" trb]
  by (simp add: snd_unwind)

theorem interrupt_unwinds_witness:
  "all_ok (interrupting_world [''pacstrap'', ''/mnt'', ''linux'']) []
     (acquire_cmds [(''/mnt'', ''/dev/sda2''), (''/mnt/boot'', ''/dev/sda1'')]) \<and>
   run (interrupting_world [''pacstrap'', ''/mnt'', ''linux'']) [''pacstrap'', ''/mnt'', ''linux'']
     ([] @ acquire_cmds [(''/mnt'', ''/dev/sda2''), (''/mnt/boot'', ''/dev/sda1'')]) =
     (Inl KeyboardInterrupt,
      acquire_cmds [(''/mnt'', ''/dev/sda2''), (''/mnt/boot'', ''/dev/sda1'')] @
      [[''pacstrap'', ''/mnt'', ''linux'']]) \<and>
   none_interrupted (interrupting_world [''pacstrap'', ''/mnt'', ''linux''])
     (acquire_cmds [(''/mnt'', ''/dev/sda2''), (''/mnt/boot'', ''/dev/sda1'')] @
      [[''pacstrap'', ''/mnt'', ''linux'']])
     (release_cmds [(''/mnt'', ''/dev/sda2''), (''/mnt/boot'', ''/dev/sda1'')]) \<and>
   do_mount (interrupting_world [''pacstrap'', ''/mnt'', ''linux''])
     [(''/mnt'', ''/dev/sda2''), (''/mnt/boot'', ''/dev/sda1'')]
     (run (interrupting_world [''pacstrap'', ''/mnt'', ''linux''])
        [''pacstrap'', ''/mnt'', ''linux'']) [] =
     (Inl KeyboardInterrupt,
      [[''mkdir'', ''-p'', ''/mnt''], [''mount'', ''/dev/sda2'', ''/mnt''],
       [''mkdir'', ''-p'', ''/mnt/boot''], [''mount'', ''/dev/sda1'', ''/mnt/boot''],
       [''pacstrap'', ''/mnt'', ''linux''],
       [''umount'', ''/mnt/boot''], [''umount'', ''/mnt'']])"
proof -
  let ?c = "[''pacstrap'', ''/mnt'', ''linux'']"
  let ?w = "interrupting_world ?c"
  let ?specs = "[(''/mnt'', ''/dev/sda2''), (''/mnt/boot'', ''/dev/sda1'')]"
  let ?run = "do_mount ?w ?specs (run ?w ?c) []"
  have h1: "all_ok ?w [] (acquire_cmds ?specs)"
    by (simp add: acquire_cmds_def interrupting_world_def)
  have h2: "run ?w ?c ([] @ acquire_cmds ?specs) =
      (Inl KeyboardInterrupt, acquire_cmds ?specs @ [?c])"
    by (simp add: run_def interrupting_world_def)
  have h3: "all_ok ?w (acquire_cmds ?specs @ [?c]) (release_cmds ?specs)"
    by (simp add: acquire_cmds_def release_cmds_def interrupting_world_def)
  have h4: "none_interrupted ?w (acquire_cmds ?specs @ [?c]) (release_cmds ?specs)"
    by (simp add: acquire_cmds_def release_cmds_def interrupting_world_def)
  from interrupt_unwinds [where body = "run ?w ?c" and tr = "[]", OF h1 h2] h3
  have "snd ?run = (acquire_cmds ?specs @ [?c]) @ release_cmds ?specs"
    and "fst ?run = Inl KeyboardInterrupt"
    by blast+
  then have "?run = (Inl KeyboardInterrupt, (acquire_cmds ?specs @ [?c]) @ release_cmds ?specs)"
    by (simp add: prod_eq_iff)
  with h1 h2 h4 show ?thesis
    by (simp add: acquire_cmds_def release_cmds_def)
qed

section \<open>Mount spec resolver: duplicates and positions\<close>

text \<open>
  Claim C6, as stated, ends with "no mount is performed". Of the installation run that
  is false: \<open>main\<close> partitions the disks and enters the mount scope first, and the
  resolver is called only inside that scope, by \<open>_configure_system\<close>. With two
  partitions for \<open>/boot\<close> and every command succeeding, four mounts are made (and the
  packages installed) before the \<open>ValueError\<close> of the duplicate mount point is raised.
\<close>

theorem duplicate_mount_point_after_mounts_counterexample:
  "\<not> distinct (normalized_mount_points (partitions_cfg duplicate_boot_configuration)) \<and>
   main ok_world duplicate_boot_configuration (return ()) [] =
     (Inl (ValueError (already_exists ''/boot'')),
      [[''sgdisk'', ''-Z'', ''/dev/sda''],
       [''sgdisk'', ''-n=1:0:+256M'', ''/dev/sda''],
       [''sgdisk'', ''-t=1:ef00'', ''/dev/sda''],
       [''mkfs.fat'', ''-F32'', ''/dev/sda1''],
       [''sgdisk'', ''-n=2:0:0'', ''/dev/sda''],
       [''sgdisk'', ''-t=2:8304'', ''/dev/sda''],
       [''mkfs.ext4'', ''/dev/sda2''],
       [''sgdisk'', ''-Z'', ''/dev/sdb''],
       [''sgdisk'', ''-n=1:0:+512M'', ''/dev/sdb''],
       [''sgdisk'', ''-t=1:ef00'', ''/dev/sdb''],
       [''mkfs.fat'', ''-F32'', ''/dev/sdb1''],
       [''sgdisk'', ''-n=2:0:0'', ''/dev/sdb''],
       [''sgdisk'', ''-t=2:8302'', ''/dev/sdb''],
       [''mkfs.btrfs'', ''-f'', ''/dev/sdb2''],
       [''mkdir'', ''-p'', ''/mnt''], [''mount'', ''/dev/sda2'', ''/mnt''],
       [''mkdir'', ''-p'', ''/mnt/boot''], [''mount'', ''/dev/sda1'', ''/mnt/boot''],
       [''mkdir'', ''-p'', ''/mnt/boot''], [''mount'', ''/dev/sdb1'', ''/mnt/boot''],
       [''mkdir'', ''-p'', ''/mnt/home''], [''mount'', ''/dev/sdb2'', ''/mnt/home''],
       write_line_args (mirrorlist (mirrors duplicate_boot_configuration))
         ''/etc/pacman.d/mirrorlist'',
       [''pacstrap'', ''/mnt'', ''linux'', ''pacman'', ''sed'', ''sudo'', ''xf86-video-fbdev'',
        ''alacritty'', ''dolphin'', ''plasma-desktop'', ''sddm'', ''xorg-server''],
       [''umount'', ''/mnt/home''], [''umount'', ''/mnt/boot''], [''umount'', ''/mnt/boot''],
       [''umount'', ''/mnt'']])"
proof -
  let ?cfg = "duplicate_boot_configuration"
  have ps: "partitions_cfg ?cfg = duplicate_boot_partitions"
    by (simp add: duplicate_boot_configuration_def)
  have d: "\<not> distinct (normalized_mount_points (partitions_cfg ?cfg))"
    by (simp add: ps normalized_duplicate_boot)
  have g: "get_mount_specs (partitions_cfg ?cfg) = Inl (ValueError (already_exists ''/boot''))"
    by (simp add: ps resolved_duplicate_boot)
  have ok: "all_ok ok_world [] (commands_before_resolver ?cfg)"
    unfolding commands_before_duplicate_boot by (simp add: ok_world_def)
  have rel: "release_cmds (sorted_mount_specs (partitions_cfg ?cfg) ''/mnt'') =
      [[''umount'', ''/mnt/home''], [''umount'', ''/mnt/boot''], [''umount'', ''/mnt/boot''],
       [''umount'', ''/mnt'']]"
    by (simp add: ps sorted_specs_duplicate_boot release_cmds_def)
  have ok': "all_ok ok_world ([] @ commands_before_resolver ?cfg)
      (release_cmds (sorted_mount_specs (partitions_cfg ?cfg) ''/mnt''))"
    unfolding rel by (simp add: ok_world_def)
  have "main ok_world ?cfg (return ()) [] =
      (Inl (ValueError (already_exists ''/boot'')),
       ([] @ commands_before_resolver ?cfg) @
       release_cmds (sorted_mount_specs (partitions_cfg ?cfg) ''/mnt''))"
    unfolding main_resolver_fails [OF g ok] by (rule unwind_all_ok [OF ok'])
  then show ?thesis
    unfolding rel commands_before_duplicate_boot using d by simp
qed

text \<open>
  Claim C6, amended. When two partitions of the table (on any disks) have the same
  normalized mount point, \<open>_get_mount_specs\<close> raises the \<open>ValueError\<close> of the duplicate
  mount point at the first entry whose normalized mount point has occurred before it.
  The partitions after that entry play no part: every table whose entries start in the
  same way gives the same error. The resolver itself runs no command, but \<open>main\<close> reaches
  it only inside the mount scope: in a run whose commands up to that point succeed, the
  disks have been partitioned, every mount made and the packages installed; after the
  error nothing more is run but the \<open>umount\<close> of every target in reverse order, and the
  run ends with an exception, the \<open>ValueError\<close> when the unmounts succeed.
\<close>

theorem duplicate_mount_point_rejected:
  assumes "\<not> distinct (normalized_mount_points partitions)"
  shows "\<exists>pre e post.
           table_entries partitions = pre @ e # post \<and>
           distinct (map key_of pre) \<and> key_of e \<in> set (map key_of pre) \<and>
           get_mount_specs partitions = Inl (ValueError (already_exists (key_of e))) \<and>
           (\<forall>partitions' post'. table_entries partitions' = pre @ e # post' \<longrightarrow>
              get_mount_specs partitions' = Inl (ValueError (already_exists (key_of e)))) \<and>
           (\<forall>w configuration remaining tr.
              partitions_cfg configuration = partitions \<and>
              all_ok w tr (commands_before_resolver configuration) \<longrightarrow>
                snd (main w configuration remaining tr) =
                  tr @ commands_before_resolver configuration @
                  release_cmds (sorted_mount_specs partitions ''/mnt'') \<and>
                (\<exists>e'. fst (main w configuration remaining tr) = Inl e') \<and>
                (all_ok w (tr @ commands_before_resolver configuration)
                   (release_cmds (sorted_mount_specs partitions ''/mnt'')) \<longrightarrow>
                 fst (main w configuration remaining tr) =
                   Inl (ValueError (already_exists (key_of e)))))"
proof -
  from assms obtain xs y ys where y: "y \<in> set xs" and d: "distinct xs"
    and split: "map key_of (table_entries partitions) = xs @ y # ys"
    unfolding normalized_mount_points_def not_distinct_conv_prefix by blast
  from split obtain pre rest where 1: "table_entries partitions = pre @ rest"
    and 2: "map key_of pre = xs" and 3: "map key_of rest = y # ys"
    by (auto simp: map_eq_append_conv)
  from 3 obtain e post where 4: "rest = e # post" and 5: "key_of e = y"
    by (auto simp: map_eq_Cons_conv)
  have dp: "distinct (map key_of pre)" and mem: "key_of e \<in> set (map key_of pre)"
    using d y 2 5 by simp_all
  let ?err = "ValueError (already_exists (key_of e))"
  let ?specs = "sorted_mount_specs partitions ''/mnt''"
  have err: "get_mount_specs partitions' = Inl ?err"
    if "table_entries partitions' = pre @ e # post'" for partitions' post'
    using resolve_entries_duplicate [OF dp mem, of post'] that
    by (simp add: get_mount_specs_entries)
  have here: "get_mount_specs partitions = Inl ?err"
    using err [of partitions post] 1 4 by simp
  have run: "snd (main w configuration remaining tr) =
        tr @ commands_before_resolver configuration @ release_cmds ?specs \<and>
      (\<exists>e'. fst (main w configuration remaining tr) = Inl e') \<and>
      (all_ok w (tr @ commands_before_resolver configuration) (release_cmds ?specs) \<longrightarrow>
       fst (main w configuration remaining tr) = Inl ?err)"
    if c: "partitions_cfg configuration = partitions"
      and ok: "all_ok w tr (commands_before_resolver configuration)"
    for w configuration remaining tr
  proof -
    have g: "get_mount_specs (partitions_cfg configuration) = Inl ?err"
      using here c by simp
    have m: "main w configuration remaining tr =
        unwind w ?specs (Inl ?err, tr @ commands_before_resolver configuration)"
      using main_resolver_fails [OF g ok, of remaining] c by simp
    show ?thesis
      using unwind_Inl [of w ?specs ?err "tr @ commands_before_resolver configuration"]
        unwind_all_ok [of w "tr @ commands_before_resolver configuration" ?specs "Inl ?err"]
      by (simp add: m snd_unwind)
  qed
  from 1 4 dp mem here err run show ?thesis by blast
qed

theorem duplicate_mount_point_rejected_witness:
  "\<not> distinct (normalized_mount_points duplicate_boot_partitions) \<and>
   get_mount_specs duplicate_boot_partitions = Inl (ValueError (already_exists ''/boot'')) \<and>
   partitions_cfg duplicate_boot_configuration = duplicate_boot_partitions \<and>
   all_ok ok_world [] (commands_before_resolver duplicate_boot_configuration) \<and>
   all_ok ok_world ([] @ commands_before_resolver duplicate_boot_configuration)
     (release_cmds (sorted_mount_specs duplicate_boot_partitions ''/mnt'')) \<and>
   main ok_world duplicate_boot_configuration (return ()) [] =
     (Inl (ValueError (already_exists ''/boot'')),
      commands_before_resolver duplicate_boot_configuration @
      release_cmds (sorted_mount_specs duplicate_boot_partitions ''/mnt''))"
proof -
  let ?cfg = "duplicate_boot_configuration"
  let ?specs = "sorted_mount_specs duplicate_boot_partitions ''/mnt''"
  have h: "\<not> distinct (normalized_mount_points duplicate_boot_partitions)"
    by (simp add: normalized_duplicate_boot)
  have c: "partitions_cfg ?cfg = duplicate_boot_partitions"
    by (simp add: duplicate_boot_configuration_def)
  have ok: "all_ok ok_world [] (commands_before_resolver ?cfg)"
    unfolding commands_before_duplicate_boot by (simp add: ok_world_def)
  have ok': "all_ok ok_world ([] @ commands_before_resolver ?cfg) (release_cmds ?specs)"
    unfolding sorted_specs_duplicate_boot by (simp add: release_cmds_def ok_world_def)
  have r: "get_mount_specs duplicate_boot_partitions = Inl (ValueError (already_exists ''/boot''))"
    by (rule resolved_duplicate_boot)
  from duplicate_mount_point_rejected [OF h] obtain e where
    g: "get_mount_specs duplicate_boot_partitions = Inl (ValueError (already_exists (key_of e)))"
    and m: "\<forall>w configuration remaining tr.
        partitions_cfg configuration = duplicate_boot_partitions \<and>
        all_ok w tr (commands_before_resolver configuration) \<longrightarrow>
          snd (main w configuration remaining tr) =
            tr @ commands_before_resolver configuration @ release_cmds ?specs \<and>
          (\<exists>e'. fst (main w configuration remaining tr) = Inl e') \<and>
          (all_ok w (tr @ commands_before_resolver configuration) (release_cmds ?specs) \<longrightarrow>
           fst (main w configuration remaining tr) =
             Inl (ValueError (already_exists (key_of e))))"
    by blast
  from g r have same: "already_exists (key_of e) = already_exists ''/boot''"
    by simp
  from m [rule_format, of ?cfg ok_world "[]" "return ()"] c ok ok'
  have "snd (main ok_world ?cfg (return ()) []) =
      [] @ commands_before_resolver ?cfg @ release_cmds ?specs"
    and "fst (main ok_world ?cfg (return ()) []) = Inl (ValueError (already_exists (key_of e)))"
    by blast+
  then have "main ok_world ?cfg (return ()) [] =
      (Inl (ValueError (already_exists ''/boot'')),
       commands_before_resolver ?cfg @ release_cmds ?specs)"
    unfolding same by (simp add: prod_eq_iff)
  with h r c ok ok' show ?thesis by blast
qed

text \<open>
  Claim C7. When the normalized mount points of the table are pairwise different and
  one of them is the empty string (the root), \<open>_get_mount_specs\<close> returns a \<open>MountSpecs\<close>
  value. Its root is the spec of a partition with normalized mount point \<open>''\<close>: the disk
  is that partition's disk, the partition id its position, counted from 1, in the disk's
  sequence. Boot and home are present exactly when some partition has the normalized
  mount point \<open>/boot\<close> and \<open>/home\<close>, and then describe that partition in the same way.
\<close>

theorem resolver_positions:
  assumes "distinct (normalized_mount_points partitions)"
    and "[] \<in> set (normalized_mount_points partitions)"
  shows "\<exists>ms. get_mount_specs partitions = Inr ms \<and>
           at_position partitions [] (root ms) \<and>
           (boot ms \<noteq> None \<longleftrightarrow> ''/boot'' \<in> set (normalized_mount_points partitions)) \<and>
           (home ms \<noteq> None \<longleftrightarrow> ''/home'' \<in> set (normalized_mount_points partitions)) \<and>
           (\<forall>s. boot ms = Some s \<longrightarrow> at_position partitions ''/boot'' s) \<and>
           (\<forall>s. home ms = Some s \<longrightarrow> at_position partitions ''/home'' s)"
proof -
  let ?es = "table_entries partitions"
  let ?M = "map_of (map (\<lambda>e. (key_of e, spec_of e)) ?es)"
  have d: "distinct (map key_of ?es)"
    using assms(1) by (simp add: normalized_mount_points_def)
  have res: "resolve_entries ?es Map.empty = Inr ?M"
    using resolve_entries_ok [OF d, of Map.empty] by simp
  have "?M [] \<noteq> None"
    using assms(2) by (simp add: map_of_entries_None normalized_mount_points_def)
  then obtain rt where rt: "?M [] = Some rt" by blast
  let ?ms = "\<lparr>root = rt, boot = ?M ''/boot'', home = ?M ''/home''\<rparr>"
  have g: "get_mount_specs partitions = Inr ?ms"
    by (simp add: get_mount_specs_entries res rt)
  have r: "at_position partitions [] (root ?ms)"
    using at_position_lookup [OF d rt] by simp
  have b: "boot ?ms \<noteq> None \<longleftrightarrow> ''/boot'' \<in> set (normalized_mount_points partitions)"
    using map_of_entries_None [of ?es "''/boot''"] by (simp add: normalized_mount_points_def)
  have h: "home ?ms \<noteq> None \<longleftrightarrow> ''/home'' \<in> set (normalized_mount_points partitions)"
    using map_of_entries_None [of ?es "''/home''"] by (simp add: normalized_mount_points_def)
  have bs: "\<forall>s. boot ?ms = Some s \<longrightarrow> at_position partitions ''/boot'' s"
    using at_position_lookup [OF d] by simp
  have hs: "\<forall>s. home ?ms = Some s \<longrightarrow> at_position partitions ''/home'' s"
    using at_position_lookup [OF d] by simp
  from g r b h bs hs show ?thesis by blast
qed

theorem resolver_positions_witness:
  "distinct (normalized_mount_points configuration_partitions) \<and>
   [] \<in> set (normalized_mount_points configuration_partitions) \<and>
   get_mount_specs configuration_partitions =
     Inr \<lparr>root = \<lparr>disk = ''/dev/sda'', partition_id = 2, file_system_name = ''ext4''\<rparr>,
          boot = Some \<lparr>disk = ''/dev/sda'', partition_id = 1, file_system_name = ''vfat''\<rparr>,
          home = Some \<lparr>disk = ''/dev/sda'', partition_id = 3, file_system_name = ''btrfs''\<rparr>\<rparr> \<and>
   at_position configuration_partitions []
     \<lparr>disk = ''/dev/sda'', partition_id = 2, file_system_name = ''ext4''\<rparr> \<and>
   at_position configuration_partitions ''/boot''
     \<lparr>disk = ''/dev/sda'', partition_id = 1, file_system_name = ''vfat''\<rparr> \<and>
   at_position configuration_partitions ''/home''
     \<lparr>disk = ''/dev/sda'', partition_id = 3, file_system_name = ''btrfs''\<rparr>"
proof -
  have h1: "distinct (normalized_mount_points configuration_partitions)"
    by (simp add: normalized_configuration)
  have h2: "[] \<in> set (normalized_mount_points configuration_partitions)"
    by (simp add: normalized_configuration)
  from resolver_positions [OF h1 h2] obtain ms where
    g: "get_mount_specs configuration_partitions = Inr ms"
    and r: "at_position configuration_partitions [] (root ms)"
    and b: "\<forall>s. boot ms = Some s \<longrightarrow> at_position configuration_partitions ''/boot'' s"
    and h: "\<forall>s. home ms = Some s \<longrightarrow> at_position configuration_partitions ''/home'' s"
    by blast
  from g have ms: "ms =
     \<lparr>root = \<lparr>disk = ''/dev/sda'', partition_id = 2, file_system_name = ''ext4''\<rparr>,
      boot = Some \<lparr>disk = ''/dev/sda'', partition_id = 1, file_system_name = ''vfat''\<rparr>,
      home = Some \<lparr>disk = ''/dev/sda'', partition_id = 3, file_system_name = ''btrfs''\<rparr>\<rparr>"
    by (simp add: resolved_configuration)
  from r b h show ?thesis
    unfolding ms using h1 h2 by (simp add: resolved_configuration)
qed

section \<open>Fstab emitter: the records written\<close>

text \<open>
  Claim C8. For every \<open>MountSpecs\<close> value, \<open>_write_fstab\<close> appends to \<open>etc/fstab\<close> under
  the root one line for each of boot and home that is present and whose disk is not the
  root's disk, and nothing for a role that is absent or on the root's disk; the line for
  boot comes before the line for home. A line holds the physical partition identifier,
  the mount point, the file system name, \<open>defaults\<close>, \<open>0\<close> and \<open>0\<close>, two spaces apart.
  (Each line is one \<open>sh\<close> command; the statement is for a run where these succeed.)
\<close>

theorem write_fstab_records:
  assumes "all_ok w tr (map (\<lambda>c. append_line_args c (os_path_join r ''etc/fstab''))
                          (fstab_records ms))"
  shows "write_fstab w ms r tr =
           (Inr (), tr @ map (\<lambda>c. append_line_args c (os_path_join r ''etc/fstab''))
                             (fstab_records ms))"
proof -
  have "map (\<lambda>l. append_line_args (line_str l) (os_path_join r ''etc/fstab'')) (fstab_lines ms) =
      map (\<lambda>c. append_line_args c (os_path_join r ''etc/fstab'')) (fstab_records ms)"
    using fstab_lines_records [of ms, symmetric] by (simp add: comp_def del: line_str.simps)
  then show ?thesis
    using run_all_ok [OF assms] by (simp add: write_fstab_def append_lines_run_all)
qed

theorem write_fstab_records_witness:
  "fstab_records two_disk_mount_specs = [''/dev/sdb1  /home  btrfs  defaults  0  0''] \<and>
   all_ok ok_world [] (map (\<lambda>c. append_line_args c (os_path_join ''/mnt'' ''etc/fstab''))
                         (fstab_records two_disk_mount_specs)) \<and>
   write_fstab ok_world two_disk_mount_specs ''/mnt'' [] =
     (Inr (),
      [append_line_args ''/dev/sdb1  /home  btrfs  defaults  0  0'' ''/mnt/etc/fstab''])"
proof -
  have rec: "fstab_records two_disk_mount_specs = [''/dev/sdb1  /home  btrfs  defaults  0  0'']"
    by code_simp
  have path: "os_path_join ''/mnt'' ''etc/fstab'' = ''/mnt/etc/fstab''"
    by (simp add: os_path_join_def)
  have h: "all_ok ok_world [] (map (\<lambda>c. append_line_args c (os_path_join ''/mnt'' ''etc/fstab''))
      (fstab_records two_disk_mount_specs))"
    by (simp add: rec ok_world_def)
  from write_fstab_records [OF h] rec h show ?thesis
    by (simp add: path)
qed

section \<open>Partitioner: the command sequence\<close>

text \<open>
  Claim C9, as the specification words it (\<open>+<size>M\<close> whenever a size is given), fails
  for a partition whose size is given as 0: with every command succeeding, the commands
  \<open>_partition\<close> runs for such a table are not the sequence the claim describes.
\<close>

theorem partition_zero_size_counterexample:
  "all_ok ok_world [] (partition_cmds create_cmd_spec zero_size_partitions) \<and>
   snd (partition_py ok_world zero_size_partitions []) \<noteq>
     [] @ partition_cmds create_cmd_spec zero_size_partitions"
  by (simp add: partition_cmds_def create_cmd_spec_def zero_size_partitions_def
      zero_size_partition_def ok_world_def enumerate_eq_zip seq_def run_def return_def)

text \<open>
  Claim C9, amended. When every command succeeds, \<open>_partition\<close> runs, per disk, first
  the command that destroys the partition table, then for each partition in list order,
  with its index \<open>i\<close> counted from 1: the create command (with \<open>+<size>M\<close> when a size
  other than 0 is given, for all the remaining space when the size is absent or 0), the
  command that sets the type code of \<open>i\<close>, and the formatter on the disk path followed
  by \<open>i\<close>. The commands of a partition all come before those of the next one.
\<close>

theorem partition_command_sequence:
  assumes "all_ok w tr (partition_cmds create_cmd partitions)"
  shows "partition_py w partitions tr = (Inr (), tr @ partition_cmds create_cmd partitions)"
  using run_all_ok [OF assms] by (simp add: partition_py_run_all)

theorem partition_command_sequence_witness:
  "all_ok ok_world [] (partition_cmds create_cmd configuration_partitions) \<and>
   partition_py ok_world configuration_partitions [] =
     (Inr (),
      [[''sgdisk'', ''-Z'', ''/dev/sda''],
       [''sgdisk'', ''-n=1:0:+256M'', ''/dev/sda''],
       [''sgdisk'', ''-t=1:ef00'', ''/dev/sda''],
       [''mkfs.fat'', ''-F32'', ''/dev/sda1''],
       [''sgdisk'', ''-n=2:0:+10240M'', ''/dev/sda''],
       [''sgdisk'', ''-t=2:8304'', ''/dev/sda''],
       [''mkfs.ext4'', ''/dev/sda2''],
       [''sgdisk'', ''-n=3:0:0'', ''/dev/sda''],
       [''sgdisk'', ''-t=3:8302'', ''/dev/sda''],
       [''mkfs.btrfs'', ''-f'', ''/dev/sda3'']])"
proof -
  have h: "all_ok ok_world [] (partition_cmds create_cmd configuration_partitions)"
    by (simp add: partition_cmds_configuration ok_world_def)
  from partition_command_sequence [OF h] h show ?thesis
    by (simp add: partition_cmds_configuration)
qed

text \<open>
  Claim C10. For a partition whose size is present but 0, the partitioner does what it
  does for the same partition with the size absent: the create command it runs asks for
  all the remaining space, and that command is not the one for a size of 0 MiB.
\<close>

theorem zero_size_takes_remaining_space:
  assumes "size p = Some 0"
  shows "partition_loop w d ((i, p) # rest) = partition_loop w d ((i, p\<lparr>size := None\<rparr>) # rest) \<and>
         take 1 (drop (length tr) (snd (partition_loop w d ((i, p) # rest) tr))) =
           [[''sgdisk'', ''-n='' @ str_nat i @ '':0:0'', d]] \<and>
         [''sgdisk'', ''-n='' @ str_nat i @ '':0:0'', d] \<noteq>
           [''sgdisk'', ''-n='' @ str_nat i @ '':0:+'' @ str_int 0 @ ''M'', d]"
proof -
  have 1: "partition_loop w d ((i, p) # rest) = partition_loop w d ((i, p\<lparr>size := None\<rparr>) # rest)"
    using assms by simp
  have "snd (partition_loop w d ((i, p) # rest) tr) =
      tr @ issued w tr (concat (map (\<lambda>(i, p).
         [create_cmd d i (size p),
          [''sgdisk'', ''-t='' @ str_nat i @ '':'' @ type_id (partition_type p), d],
          formatter (file_system p) @ [d @ str_nat i]]) ((i, p) # rest)))"
    by (simp only: partition_loop_run_all snd_run_all)
  then have 2: "take 1 (drop (length tr) (snd (partition_loop w d ((i, p) # rest) tr))) =
      [[''sgdisk'', ''-n='' @ str_nat i @ '':0:0'', d]]"
    using assms by (simp add: create_cmd_def)
  from 1 2 show ?thesis by simp
qed

theorem zero_size_takes_remaining_space_witness:
  "size zero_size_partition = Some 0 \<and>
   partition_loop ok_world ''/dev/sda'' [(1, zero_size_partition)] =
     partition_loop ok_world ''/dev/sda'' [(1, zero_size_partition\<lparr>size := None\<rparr>)] \<and>
   take 1 (snd (partition_loop ok_world ''/dev/sda'' [(1, zero_size_partition)] [])) =
     [[''sgdisk'', ''-n=1:0:0'', ''/dev/sda'']]"
proof -
  have h: "size zero_size_partition = Some 0"
    by (simp add: zero_size_partition_def)
  have one: "str_nat (Suc 0) = ''1''"
    by code_simp
  from zero_size_takes_remaining_space [OF h, of ok_world "''/dev/sda''" 1 "[]" "[]"]
  have a: "partition_loop ok_world ''/dev/sda'' [(1, zero_size_partition)] =
      partition_loop ok_world ''/dev/sda'' [(1, zero_size_partition\<lparr>size := None\<rparr>)]"
    and b: "take 1 (drop (length ([] :: trace))
        (snd (partition_loop ok_world ''/dev/sda'' [(1, zero_size_partition)] []))) =
      [[''sgdisk'', ''-n='' @ str_nat 1 @ '':0:0'', ''/dev/sda'']]"
    by blast+
  from b have "take 1 (snd (partition_loop ok_world ''/dev/sda'' [(1, zero_size_partition)] [])) =
      [[''sgdisk'', ''-n=1:0:0'', ''/dev/sda'']]"
    by (simp add: one del: partition_loop.simps)
  with h a show ?thesis
    by blast
qed

end
